theory Spec2Isabelle
  imports Complex_Main
begin

section \<open>Magnetic induction of PlanetProfile: a shallow embedding\<close>

text \<open>
  This first part translates the program, the second part states and proves its properties.
  The definitions follow \<^verbatim>\<open>PlanetProfile/MagneticInduction/MagneticInduction.py\<close>.
  Python integers are \<^typ>\<open>int\<close>, numpy floats are real numbers (rounding is not modelled;
  a float that may be NaN is a \<^typ>\<open>real option\<close> with \<^term>\<open>None\<close> for NaN), complex floats are
  \<^typ>\<open>complex\<close>.  Every exception the modelled code can raise is a value of \<open>py_error\<close>, and a
  function that can raise returns \<open>py_error + 'a\<close>.
\<close>

datatype py_error =
  IndexError | StopIteration | ValueError | RuntimeError | ZeroDivisionError | TypeError

subsection \<open>Linear lists of degree and order (CalcInducedMoments, lines 97-101)\<close>

text \<open>
  \<^verbatim>\<open>nLin = [n for n in range(1, nMax+1) for _ in range(-n, n+1)]\<close> and
  \<^verbatim>\<open>mLin = [m for n in range(1, nMax+1) for m in range(-n, n+1)]\<close>.
\<close>

definition nLin :: "int \<Rightarrow> int list" where
  "nLin nMax = concat (map (\<lambda>n. map (\<lambda>_. n) [- n..n]) [1..nMax])"

definition mLin :: "int \<Rightarrow> int list" where
  "mLin nMax = concat (map (\<lambda>n. map (\<lambda>m. m) [- n..n]) [1..nMax])"

subsection \<open>The frozen-ocean check of SetupInduction (lines 400-408)\<close>

text \<open>
  \<^verbatim>\<open>indsLiq = np.where(np.flip(Planet.phase) == 0)[0]\<close>: the positions of the liquid layers
  (phase 0) in the flipped phase array.
\<close>

definition indsLiq :: "int list \<Rightarrow> nat list" where
  "indsLiq phase = filter (\<lambda>i. rev phase ! i = 0) [0..<length phase]"

text \<open>
  The fields of \<open>Planet\<close> that the check writes, and the log: every message with the level it
  is logged at.
\<close>

datatype log_level = Debug | Info | Warning

record frozen_state =
  Do_VALID :: bool
  invalidReason :: "string option"
  logged :: "(log_level \<times> string) list"

definition frozen_info :: string where
  "frozen_info =
     ''Ocean is completely frozen for this body. Profile will be marked invalid for inductogram.''"

definition frozen_debug :: string where
  "frozen_debug =
     ''Ocean is completely frozen for this body. This will cause errors in conducting layer reductions, so those calculations will be skipped for this model.''"

text \<open>
  The check has two guarded branches: under \<open>DO_INDUCTOGRAM\<close> the profile is marked invalid,
  otherwise (reduced induction on a body with water) only a debug message is logged.
\<close>

definition frozen_check ::
  "int list \<Rightarrow> string \<Rightarrow> bool \<Rightarrow> bool \<Rightarrow> bool \<Rightarrow> frozen_state \<Rightarrow> frozen_state" where
  "frozen_check phase inductOtype DO_INDUCTOGRAM REDUCED_INDUCT NO_H2O st =
     (if length (indsLiq phase) = 0 \<and> \<not> inductOtype = ''sigma'' then
        (if DO_INDUCTOGRAM then
           st\<lparr>Do_VALID := False,
              invalidReason := Some ''Ocean completely frozen in inductogram'',
              logged := logged st @ [(Info, frozen_info)]\<rparr>
         else if REDUCED_INDUCT \<and> \<not> NO_H2O then
           st\<lparr>logged := logged st @ [(Debug, frozen_debug)]\<rparr>
         else st)
      else st)"

subsection \<open>The cache of coupling coefficients in SetupInduction (lines 496-509)\<close>

text \<open>
  \<open>EOSlist.loaded\<close> and \<open>EOSlist.ranges\<close> are dictionaries keyed by strings.  \<open>LoadXid\<close> is MoonMag's
  \<open>get_all_Xid\<close>, a parameter here.  The label under which the tensor is stored is written as
  an f-string with nothing between its quotes, the empty string.  The entry of \<open>ranges\<close>, the
  text \<open>{nprmMax}x{pMax}x{nMax}\<close>, is kept as the three integers it prints.
\<close>

record 'x eos_cache =
  loaded :: "string \<rightharpoonup> 'x"
  ranges :: "string \<rightharpoonup> int \<times> int \<times> int"

definition XidLabel :: string where
  "XidLabel = ''''"

definition fetch_Xid ::
  "(int \<Rightarrow> int \<Rightarrow> int \<Rightarrow> int list \<Rightarrow> int list \<Rightarrow> 'x) \<Rightarrow> int \<Rightarrow> int \<Rightarrow> 'x eos_cache
   \<Rightarrow> 'x \<times> 'x eos_cache" where
  "fetch_Xid LoadXid nprmMax pMax cache =
     (case loaded cache XidLabel of
        None \<Rightarrow>
          (let nMax = nprmMax + pMax;
               Xid = LoadXid nprmMax pMax nMax (nLin nMax) (mLin nMax)
           in (Xid, cache\<lparr>loaded := (loaded cache)(XidLabel \<mapsto> Xid),
                           ranges := (ranges cache)(XidLabel \<mapsto> (nprmMax, pMax, nMax))\<rparr>))
      | Some Xid \<Rightarrow> (Xid, cache))"

subsection \<open>The numeric method: wavenumber lookup and the ODE (lines 111-119, 364-385)\<close>

text \<open>
  \<^verbatim>\<open>next((i for i, rBd_m in enumerate(self.rBds_m) if rBd_m >= ri_m))\<close>: the index of the first
  boundary at or above the radius; \<open>next\<close> without a default raises \<open>StopIteration\<close> when there
  is none.
\<close>

fun first_at_least :: "real list \<Rightarrow> real \<Rightarrow> nat option" where
  "first_at_least [] r = None"
| "first_at_least (rBd # rBds) r =
     (if rBd \<ge> r then Some 0 else map_option Suc (first_at_least rBds r))"

text \<open>
  \<open>fn_dQdr.fn_k\<close> at one radius (the solver passes a scalar, which is wrapped into an array of
  one element): the wavenumber at the index found, an \<open>IndexError\<close> if \<open>kBlw_pm\<close> is too short.
\<close>

definition fn_k :: "complex list \<Rightarrow> real list \<Rightarrow> real \<Rightarrow> py_error + complex" where
  "fn_k kBlw_pm rBds_m r_m =
     (case first_at_least rBds_m r_m of
        None \<Rightarrow> Inl StopIteration
      | Some i \<Rightarrow> if i < length kBlw_pm then Inr (kBlw_pm ! i) else Inl IndexError)"

text \<open>
  \<open>fn_dQdr.__call__\<close>, with Python's precedence and left-to-right grouping written out:
  \<^verbatim>\<open>-k**2 * r * (n+1) / (2*n+1) / n * (Q - n/(n+1))**2 - (2*n+1) / r * Q\<close>.
\<close>

definition dQdr_call ::
  "int \<Rightarrow> complex list \<Rightarrow> real list \<Rightarrow> real \<Rightarrow> complex \<Rightarrow> py_error + complex" where
  "dQdr_call n kBlw_pm rBds_m r Q =
     (case fn_k kBlw_pm rBds_m r of
        Inl e \<Rightarrow> Inl e
      | Inr k \<Rightarrow>
          Inr (((((- (k ^ 2)) * of_real r) * of_int (n + 1)) / of_int (2 * n + 1)) / of_int n
                 * (Q - of_int n / of_int (n + 1)) ^ 2
               - (of_int (2 * n + 1) / of_real r) * Q))"

text \<open>
  \<open>SolveForQ\<close>.  \<open>ODEsolve\<close> is scipy's \<open>solve_ivp\<close>, a parameter: given the right-hand side, the
  span and the initial value it returns the last value of the solution, or the error the
  right-hand side raised.  \<open>rBds_m[-1]\<close> raises on an empty array.
\<close>

definition SolveForQ ::
  "((real \<Rightarrow> complex \<Rightarrow> py_error + complex) \<Rightarrow> real \<times> real \<Rightarrow> complex \<Rightarrow> py_error + complex)
   \<Rightarrow> int \<Rightarrow> complex list \<Rightarrow> real list \<Rightarrow> real \<Rightarrow> real \<Rightarrow> py_error + complex" where
  "SolveForQ ODEsolve n kBlw_pm rBds_m R_m rMin =
     (if rBds_m = [] then Inl IndexError
      else case ODEsolve (dQdr_call n kBlw_pm rBds_m) (rMin, last rBds_m) 0 of
             Inl e \<Rightarrow> Inl e
           | Inr Qend \<Rightarrow> Inr (Qend * of_real (power_int (last rBds_m / R_m) (n + 2))))"

text \<open>
  The wavenumbers of the layers at one frequency,
  \<^verbatim>\<open>np.sqrt(1j * Constants.mu0 * omega * Planet.Magnetic.sigmaLayers_Sm)\<close>, and the amplitude of
  degree \<open>nprm\<close> at that frequency, \<^verbatim>\<open>Aen[i, nprm] = Q * (nprm+1) / nprm\<close>.
\<close>

definition wavenumbers :: "real \<Rightarrow> real \<Rightarrow> real list \<Rightarrow> complex list" where
  "wavenumbers mu0 omega sigmaLayers_Sm =
     map (\<lambda>sigma. csqrt (\<i> * of_real mu0 * of_real omega * of_real sigma)) sigmaLayers_Sm"

definition Aen_numeric ::
  "((real \<Rightarrow> complex \<Rightarrow> py_error + complex) \<Rightarrow> real \<times> real \<Rightarrow> complex \<Rightarrow> py_error + complex)
   \<Rightarrow> real \<Rightarrow> real \<Rightarrow> real list \<Rightarrow> real list \<Rightarrow> real \<Rightarrow> real \<Rightarrow> int \<Rightarrow> py_error + complex" where
  "Aen_numeric ODEsolve mu0 omega sigmaLayers_Sm rSigChange_m R_m rMin nprm =
     (case SolveForQ ODEsolve nprm (wavenumbers mu0 omega sigmaLayers_Sm) rSigChange_m R_m rMin of
        Inl e \<Rightarrow> Inl e
      | Inr Q \<Rightarrow> Inr (Q * of_int (nprm + 1) / of_int nprm))"

text \<open>The right-hand side as the specification writes it.\<close>

definition spec_dQdr :: "int \<Rightarrow> complex \<Rightarrow> real \<Rightarrow> complex \<Rightarrow> complex" where
  "spec_dQdr n k r Q =
     - (k ^ 2) * of_real r * (of_int (n + 1) / (of_int (2 * n + 1) * of_int n))
         * (Q - of_int n / of_int (n + 1)) ^ 2
     - (of_int (2 * n + 1) / of_real r) * Q"

subsection \<open>numpy arrays\<close>

text \<open>
  A numpy array is its shape and its items, addressed by one non-negative position per axis.
  An index of Python may be negative, counting from the end of its axis; an index outside
  \<open>-d \<le> i < d\<close> on an axis of length \<open>d\<close> raises \<open>IndexError\<close>.
\<close>

record 'a ndarray =
  shape :: "nat list"
  item :: "nat list \<Rightarrow> 'a"

definition axis_index :: "nat \<Rightarrow> int \<Rightarrow> py_error + nat" where
  "axis_index d i =
     (if 0 \<le> i \<and> i < int d then Inr (nat i)
      else if i < 0 \<and> - int d \<le> i then Inr (nat (int d + i))
      else Inl IndexError)"

fun norm_index :: "nat list \<Rightarrow> int list \<Rightarrow> py_error + nat list" where
  "norm_index [] [] = Inr []"
| "norm_index (d # ds) (i # is) =
     (case axis_index d i of
        Inl e \<Rightarrow> Inl e
      | Inr j \<Rightarrow> (case norm_index ds is of Inl e \<Rightarrow> Inl e | Inr js \<Rightarrow> Inr (j # js)))"
| "norm_index _ _ = Inl IndexError"

definition getitem :: "'a ndarray \<Rightarrow> int list \<Rightarrow> py_error + 'a" where
  "getitem a idx = (case norm_index (shape a) idx of Inl e \<Rightarrow> Inl e | Inr p \<Rightarrow> Inr (item a p))"

definition setitem :: "'a ndarray \<Rightarrow> int list \<Rightarrow> 'a \<Rightarrow> py_error + 'a ndarray" where
  "setitem a idx v =
     (case norm_index (shape a) idx of
        Inl e \<Rightarrow> Inl e
      | Inr p \<Rightarrow> Inr (a\<lparr>item := (item a)(p := v)\<rparr>))"

text \<open>A \<open>for\<close> loop over a list whose body may raise: the first error ends the loop.\<close>

fun for_loop :: "('a \<Rightarrow> 's \<Rightarrow> py_error + 's) \<Rightarrow> 'a list \<Rightarrow> 's \<Rightarrow> py_error + 's" where
  "for_loop body [] s = Inr s"
| "for_loop body (x # xs) s =
     (case body x s of Inl e \<Rightarrow> Inl e | Inr s' \<Rightarrow> for_loop body xs s')"

subsection \<open>Induced moments of the symmetric case (CalcInducedMoments, lines 149-155)\<close>

text \<open>\<^verbatim>\<open>int(m<0)\<close>, the index on the sign axis.\<close>

definition sign_index :: "int \<Rightarrow> int" where
  "sign_index m = (if m < 0 then 1 else 0)"

text \<open>
  The assignment of line 154-155.  The right-hand side is evaluated first, left to right:
  \<^verbatim>\<open>n/(n+1)\<close>, the item of \<open>Benm_nT\<close>, the item of \<open>Aen\<close>; then the item of \<open>Binm_nT\<close> is set.
\<close>

definition symmetric_entry ::
  "complex ndarray \<Rightarrow> complex ndarray \<Rightarrow> int \<Rightarrow> int \<Rightarrow> int \<Rightarrow> complex ndarray
   \<Rightarrow> py_error + complex ndarray" where
  "symmetric_entry Benm_nT Aen iPeak n m Binm_nT =
     (if n + 1 = 0 then Inl ZeroDivisionError
      else case getitem Benm_nT [iPeak, sign_index m, n, m] of
        Inl e \<Rightarrow> Inl e
      | Inr be \<Rightarrow>
          (case getitem Aen [iPeak, n] of
             Inl e \<Rightarrow> Inl e
           | Inr ae \<Rightarrow>
               setitem Binm_nT [iPeak, sign_index m, n, m]
                 (of_int n / of_int (n + 1) * be * ae)))"

text \<open>
  The three nested loops: \<open>iPeak\<close> over \<open>range(nExc)\<close>, \<open>n\<close> over all of \<open>nprmLin\<close> and, for each of
  them, \<open>m\<close> over all of \<open>mprmLin\<close>.
\<close>

definition symmetric_moments ::
  "int \<Rightarrow> int list \<Rightarrow> int list \<Rightarrow> complex ndarray \<Rightarrow> complex ndarray \<Rightarrow> complex ndarray
   \<Rightarrow> py_error + complex ndarray" where
  "symmetric_moments nExc nprmLin mprmLin Benm_nT Aen Binm_nT =
     for_loop (\<lambda>iPeak.
        for_loop (\<lambda>n.
           for_loop (\<lambda>m. symmetric_entry Benm_nT Aen iPeak n m) mprmLin) nprmLin)
       [0..nExc - 1] Binm_nT"

text \<open>
  For the proof: the position that the index \<open>[iPeak, int(m<0), n, m]\<close> addresses in an array
  of shape \<open>[E, 2, D, D]\<close>, and the value the loop stores there.
\<close>

definition moment_pos :: "nat \<Rightarrow> int \<Rightarrow> int \<Rightarrow> int \<Rightarrow> nat list" where
  "moment_pos D iPeak n m =
     [nat iPeak, nat (sign_index m), nat n, (if m < 0 then nat (int D + m) else nat m)]"

definition symmetric_value :: "complex ndarray \<Rightarrow> complex ndarray \<Rightarrow> nat list \<Rightarrow> complex" where
  "symmetric_value Benm_nT Aen p =
     of_int (int (p ! 2)) / of_int (int (p ! 2) + 1) * item Benm_nT p * item Aen [p ! 0, p ! 2]"

definition written :: "nat list \<Rightarrow> (nat list \<Rightarrow> complex) \<Rightarrow> nat list set \<Rightarrow> complex ndarray \<Rightarrow> bool" where
  "written sh val S B \<longleftrightarrow> shape B = sh \<and> (\<forall>p\<in>S. item B p = val p)"

subsection \<open>Reloading induced moments (ReloadMoments, lines 202-245)\<close>

text \<open>
  The entries of the reloaded file that the rescaling reads or writes, and the fields of
  \<open>Planet.Magnetic\<close> they are assigned to.  The other entries (forcing moments, frequencies,
  \<open>mLin\<close>, the primed lists, the asymmetric shape, ionosphere bounds, names of excitations and
  the phase) are copied and not touched by the rescaling; they are left out.
\<close>

record reload_file =
  f_Binm_nT :: "complex ndarray"
  f_BinmLin_nT :: "complex ndarray"
  f_nLin :: "int list"
  f_Bi1x_nT :: "complex list"
  f_Bi1y_nT :: "complex list"
  f_Bi1z_nT :: "complex list"
  f_Aen :: "complex ndarray"
  f_R_km :: real

record magnetic =
  M_Binm_nT :: "complex ndarray"
  M_BinmLin_nT :: "complex ndarray"
  M_nLin :: "int list"
  M_Bi1xyz_nT :: "string \<rightharpoonup> complex list"
  M_Aen :: "complex ndarray"
  M_Amp :: "real list"

text \<open>\<^verbatim>\<open>np.abs(a[:, j])\<close> of a two-dimensional array: one value per row.\<close>

definition abs_column :: "complex ndarray \<Rightarrow> int \<Rightarrow> py_error + real list" where
  "abs_column a j =
     (case shape a of
        [rows, cols] \<Rightarrow>
          (case axis_index cols j of
             Inl e \<Rightarrow> Inl e
           | Inr k \<Rightarrow> Inr (map (\<lambda>i. cmod (item a [i, k])) [0..<rows]))
      | _ \<Rightarrow> Inl IndexError)"

text \<open>
  \<^verbatim>\<open>a[..., n, ...] *= c\<close> with the index \<open>n\<close> on axis \<open>ax\<close> and full slices elsewhere
  (\<^verbatim>\<open>Aen[:, n]\<close> has \<open>ax = 1\<close>, \<^verbatim>\<open>Binm_nT[:,:,n,:]\<close> has \<open>ax = 2\<close>).
\<close>

definition scale_at :: "nat \<Rightarrow> int \<Rightarrow> complex \<Rightarrow> complex ndarray \<Rightarrow> py_error + complex ndarray" where
  "scale_at ax n c a =
     (if ax < length (shape a) then
        (case axis_index (shape a ! ax) n of
           Inl e \<Rightarrow> Inl e
         | Inr j \<Rightarrow> Inr (a\<lparr>item := (\<lambda>p. if p ! ax = j then item a p * c else item a p)\<rparr>))
      else Inl IndexError)"

text \<open>
  \<^verbatim>\<open>a[:, mask] *= c\<close> for a two-dimensional array and a boolean mask over its columns, which
  must be as long as the rows.
\<close>

definition scale_columns :: "bool list \<Rightarrow> complex \<Rightarrow> complex ndarray \<Rightarrow> py_error + complex ndarray" where
  "scale_columns msk c a =
     (case shape a of
        [rows, cols] \<Rightarrow>
          if length msk = cols then
            Inr (a\<lparr>item := (\<lambda>p. if p ! 1 < cols \<and> msk ! (p ! 1) then item a p * c else item a p)\<rparr>)
          else Inl IndexError
      | _ \<Rightarrow> Inl IndexError)"

text \<open>The body of the loop of lines 239-243, for one degree \<open>n\<close>.\<close>

definition rescale_degree :: "real \<Rightarrow> int \<Rightarrow> magnetic \<Rightarrow> py_error + magnetic" where
  "rescale_degree ratio n M =
     (let scaling = of_real (power_int ratio (n + 2)) in
      case scale_at 1 n scaling (M_Aen M) of
        Inl e \<Rightarrow> Inl e
      | Inr A \<Rightarrow>
          (case scale_at 2 n scaling (M_Binm_nT M) of
             Inl e \<Rightarrow> Inl e
           | Inr B \<Rightarrow>
               (case scale_columns (map (\<lambda>k. k = n) (M_nLin M)) scaling (M_BinmLin_nT M) of
                  Inl e \<Rightarrow> Inl e
                | Inr L \<Rightarrow> Inr (M\<lparr>M_Aen := A, M_Binm_nT := B, M_BinmLin_nT := L\<rparr>))))"

text \<open>\<^verbatim>\<open>np.max\<close> of an integer array; it raises \<open>ValueError\<close> on an empty one.\<close>

definition np_max :: "int list \<Rightarrow> py_error + int" where
  "np_max xs = (case xs of [] \<Rightarrow> Inl ValueError | x # ys \<Rightarrow> Inr (fold max ys x))"

text \<open>
  \<open>ReloadMoments\<close>: the assignments from the file, the dipole amplitude, and the rescaling
  under the test \<^verbatim>\<open>(Rre_m - Planet.Bulk.R_m) / Planet.Bulk.R_m > 1e-6\<close>.  The result is the
  magnetic fields and the warnings logged.
\<close>

definition ReloadMoments :: "real \<Rightarrow> reload_file \<Rightarrow> py_error + magnetic \<times> string list" where
  "ReloadMoments R_m reload =
     (case abs_column (f_Aen reload) 1 of
        Inl e \<Rightarrow> Inl e
      | Inr amp \<Rightarrow>
          (let M = \<lparr>M_Binm_nT = f_Binm_nT reload, M_BinmLin_nT = f_BinmLin_nT reload,
                    M_nLin = f_nLin reload,
                    M_Bi1xyz_nT = [''x'' \<mapsto> f_Bi1x_nT reload, ''y'' \<mapsto> f_Bi1y_nT reload,
                                   ''z'' \<mapsto> f_Bi1z_nT reload],
                    M_Aen = f_Aen reload, M_Amp = amp\<rparr>;
               Rre_m = f_R_km reload * 1000
           in if (Rre_m - R_m) / R_m > 1 / 1000000 then
                (let dipScaling = (R_m / Rre_m) ^ 3;
                     M1 = M\<lparr>M_Amp := map (\<lambda>a. a * dipScaling) (M_Amp M),
                            M_Bi1xyz_nT := map_option (map (\<lambda>b. b * of_real dipScaling))
                                             \<circ> M_Bi1xyz_nT M\<rparr>
                 in case np_max (M_nLin M1) of
                      Inl e \<Rightarrow> Inl e
                    | Inr nMax \<Rightarrow>
                        (case for_loop (rescale_degree (R_m / Rre_m)) [1..nMax] M1 of
                           Inl e \<Rightarrow> Inl e
                         | Inr M2 \<Rightarrow>
                             Inr (M2, [''Reloaded body radius is significantly different from input body radius. Reloaded moments will be scaled accordingly.''])))
              else Inr (M, [])))"

text \<open>A file used in the evaluations below: one peak, degree 1 only, stored radius 1000 km.\<close>

definition file_1000km :: reload_file where
  "file_1000km =
     \<lparr>f_Binm_nT = \<lparr>shape = [1, 2, 2, 2], item = (\<lambda>p. 1)\<rparr>,
      f_BinmLin_nT = \<lparr>shape = [1, 3], item = (\<lambda>p. 1)\<rparr>,
      f_nLin = [1, 1, 1],
      f_Bi1x_nT = [1], f_Bi1y_nT = [1], f_Bi1z_nT = [1],
      f_Aen = \<lparr>shape = [1, 2], item = (\<lambda>p. 1)\<rparr>,
      f_R_km = 1000\<rparr>"

subsection \<open>Layer reduction in SetupInduction (lines 414-476)\<close>

text \<open>
  A float of numpy that may be NaN: \<open>None\<close> is NaN.  A comparison with NaN is false, except
  \<open>!=\<close>, which is true.
\<close>

type_synonym npfloat = "real option"


definition fl_ne :: "npfloat \<Rightarrow> npfloat \<Rightarrow> bool" where
  "fl_ne a b = (case a of None \<Rightarrow> True | Some x \<Rightarrow> (case b of None \<Rightarrow> True | Some y \<Rightarrow> x \<noteq> y))"

definition fl_lt :: "npfloat \<Rightarrow> npfloat \<Rightarrow> bool" where
  "fl_lt a b = (case a of None \<Rightarrow> False | Some x \<Rightarrow> (case b of None \<Rightarrow> False | Some y \<Rightarrow> x < y))"
























subsection \<open>Shape coefficients (SetAsymShape and SetGravShape, lines 640-839)\<close>

text \<open>
  A shape file as \<open>np.loadtxt\<close> returns its first four columns: degree, order and the cosine
  and sine coefficients in km.  The degrees and orders are whole numbers and are kept as
  integers.  The files found by the search are given with their paths.
\<close>

record shape_file =
  sf_pLin :: "int list"
  sf_qLin :: "int list"
  sf_Cpq_km :: "real list"
  sf_Spq_km :: "real list"

text \<open>The fields of \<open>Planet.Bulk\<close> and \<open>Planet.Magnetic\<close> that the two functions read or write.\<close>

record bulk =
  B_R_m :: real
  B_J2 :: "real option"
  B_C20 :: "real option"
  B_C21 :: "real option"
  B_C22 :: "real option"
  B_S21 :: "real option"
  B_S22 :: "real option"
  B_Cmeasured :: "real option"

record asym_state =
  A_pMax :: "int option"
  A_asymShape_m :: "complex ndarray"
  A_gravShape_m :: "complex ndarray"
  A_zMeanAsym_km :: "real list"
  A_iAsymBds :: "nat list"
  A_pLin :: "int list option"
  A_qLin :: "int list option"

text \<open>\<^verbatim>\<open>np.zeros((nBds, 2, pMax+1, pMax+1))\<close>; a negative dimension raises \<open>ValueError\<close>.\<close>

definition zeros4 :: "nat \<Rightarrow> int \<Rightarrow> py_error + complex ndarray" where
  "zeros4 nBds pMax =
     (if pMax + 1 < 0 then Inl ValueError
      else Inr \<lparr>shape = [nBds, 2, nat (pMax + 1), nat (pMax + 1)], item = (\<lambda>_. 0)\<rparr>)"

text \<open>
  \<^verbatim>\<open>A[iLayer, :, p, :p+1] = v\<close> for a degree \<open>p \<ge> 0\<close>, where \<open>v\<close> gives the value for each sign and
  order (an array of shape \<open>(2, p+1)\<close> in the code).
\<close>

definition set_block ::
  "complex ndarray \<Rightarrow> nat \<Rightarrow> nat \<Rightarrow> (nat \<Rightarrow> nat \<Rightarrow> complex) \<Rightarrow> py_error + complex ndarray" where
  "set_block A iLayer p v =
     (case shape A of
        [nb, ns, np, nq] \<Rightarrow>
          if iLayer < nb \<and> p < np then
            Inr (A\<lparr>item := (\<lambda>idx. if length idx = 4 \<and> idx ! 0 = iLayer \<and> idx ! 2 = p
                                      \<and> idx ! 1 < ns \<and> idx ! 3 < min (p + 1) nq
                                   then v (idx ! 1) (idx ! 3) else item A idx)\<rparr>)
          else Inl IndexError
      | _ \<Rightarrow> Inl IndexError)"

text \<open>\<^verbatim>\<open>np.argmin(np.abs(xs))\<close>: the first index of the least absolute value.\<close>

definition argmin_abs :: "real list \<Rightarrow> py_error + nat" where
  "argmin_abs xs =
     (if xs = [] then Inl ValueError
      else Inr (fold (\<lambda>i best. if \<bar>xs ! i\<bar> < \<bar>xs ! best\<bar> then i else best) [0..<length xs] 0))"

text \<open>\<^verbatim>\<open>np.max(pL[np.logical_or(Cpq_km != 0, Spq_km != 0)])\<close>.\<close>

definition max_nonzero_degree :: "shape_file \<Rightarrow> py_error + int" where
  "max_nonzero_degree f =
     np_max (map fst (filter (\<lambda>(p, c, s). c \<noteq> 0 \<or> s \<noteq> 0)
                        (zip (sf_pLin f) (zip (sf_Cpq_km f) (sf_Spq_km f)))))"

text \<open>
  The coefficients of one degree of a file, negated and in metres, handed to MoonMag's
  \<open>get_chipq_from_CSpq_single\<close> (the parameter \<open>chipq\<close>, whose result is read by sign and order).
\<close>

definition degree_chipq ::
  "(int \<Rightarrow> real list \<Rightarrow> real list \<Rightarrow> nat \<Rightarrow> nat \<Rightarrow> complex) \<Rightarrow> shape_file \<Rightarrow> int
   \<Rightarrow> nat \<Rightarrow> nat \<Rightarrow> complex" where
  "degree_chipq chipq f p =
     (let iMin = nat (p * (p + 1) div 2);
          iMax = iMin + nat p + 1;
          Cpq_m = map (\<lambda>c. - c * 1000) (take (iMax - iMin) (drop iMin (sf_Cpq_km f)));
          Spq_m = map (\<lambda>c. - c * 1000) (take (iMax - iMin) (drop iMin (sf_Spq_km f)))
      in chipq p Cpq_m Spq_m)"

text \<open>The first row of a file must be degree 0, order 0 (lines 738 and 800).\<close>

definition check_first_row :: "shape_file \<Rightarrow> py_error + unit" where
  "check_first_row f =
     (case sf_pLin f of
        [] \<Rightarrow> Inl IndexError
      | p0 # _ \<Rightarrow>
          if p0 = 0 then
            (case sf_qLin f of
               [] \<Rightarrow> Inl IndexError
             | q0 # _ \<Rightarrow> if q0 = 0 then Inr () else Inl RuntimeError)
          else Inl RuntimeError)"

text \<open>Concentric mode, lines 759-761: one layer of one degree.\<close>

definition concentric_layer ::
  "real list \<Rightarrow> real \<Rightarrow> nat \<Rightarrow> (nat \<Rightarrow> nat \<Rightarrow> complex) \<Rightarrow> nat \<Rightarrow> complex ndarray
   \<Rightarrow> py_error + complex ndarray" where
  "concentric_layer rSigChange_m rAsym_m p chi iLayer A =
     (case setitem A [int iLayer, 0, 0, 0] (of_real (rSigChange_m ! iLayer)) of
        Inl e \<Rightarrow> Inl e
      | Inr A1 \<Rightarrow>
          set_block A1 iLayer p (\<lambda>s q. chi s q * of_real (rSigChange_m ! iLayer / rAsym_m)))"

text \<open>Concentric mode, lines 740-765, for the file found under the expected name.\<close>

definition concentric_shape ::
  "(int \<Rightarrow> real list \<Rightarrow> real list \<Rightarrow> nat \<Rightarrow> nat \<Rightarrow> complex) \<Rightarrow> real \<Rightarrow> real list \<Rightarrow> shape_file
   \<Rightarrow> asym_state \<Rightarrow> py_error + asym_state" where
  "concentric_shape chipq R_m rSigChange_m f M =
     (case check_first_row f of
        Inl e \<Rightarrow> Inl e
      | Inr _ \<Rightarrow>
          (case sf_Cpq_km f of
             [] \<Rightarrow> Inl IndexError
           | c0 # _ \<Rightarrow>
               (let rAsym_m = R_m - c0 * 1000
                in case np_max (sf_pLin f) of
                     Inl e \<Rightarrow> Inl e
                   | Inr pFile \<Rightarrow>
                       (let pMax = (case A_pMax M of
                                      None \<Rightarrow> pFile
                                    | Some p \<Rightarrow> if p > pFile then pFile else p)
                        in case zeros4 (length rSigChange_m) pMax of
                             Inl e \<Rightarrow> Inl e
                           | Inr Z \<Rightarrow>
                               (case for_loop
                                       (\<lambda>p. for_loop
                                               (concentric_layer rSigChange_m rAsym_m (nat p)
                                                  (degree_chipq chipq f p))
                                               [0..<length rSigChange_m])
                                       [1..pMax] Z of
                                  Inl e \<Rightarrow> Inl e
                                | Inr A \<Rightarrow>
                                    (case argmin_abs (map (\<lambda>r. r - rAsym_m) rSigChange_m) of
                                       Inl e \<Rightarrow> Inl e
                                     | Inr iBd \<Rightarrow>
                                         Inr (M\<lparr>A_pLin := Some (sf_pLin f),
                                                A_qLin := Some (sf_qLin f),
                                                A_pMax := Some pMax,
                                                A_asymShape_m := A,
                                                A_zMeanAsym_km := A_zMeanAsym_km M @ [c0],
                                                A_iAsymBds := A_iAsymBds M @ [iBd]\<rparr>)))))))"

text \<open>A list comprehension whose items may raise.\<close>

fun map_err :: "('a \<Rightarrow> py_error + 'b) \<Rightarrow> 'a list \<Rightarrow> py_error + 'b list" where
  "map_err f [] = Inr []"
| "map_err f (x # xs) =
     (case f x of
        Inl e \<Rightarrow> Inl e
      | Inr y \<Rightarrow> (case map_err f xs of Inl e \<Rightarrow> Inl e | Inr ys \<Rightarrow> Inr (y # ys)))"

text \<open>
  Per-boundary mode, lines 808-819: one degree of one file, added to the boundary \<open>iLayer\<close>
  nearest to the file.
\<close>

definition boundary_degree ::
  "(int \<Rightarrow> real list \<Rightarrow> real list \<Rightarrow> nat \<Rightarrow> nat \<Rightarrow> complex) \<Rightarrow> real \<Rightarrow> real list \<Rightarrow> shape_file
   \<Rightarrow> real \<Rightarrow> nat \<Rightarrow> int \<Rightarrow> asym_state \<Rightarrow> py_error + asym_state" where
  "boundary_degree chipq R_m rSigChange_m f rAsym_m iLayer p M =
     (let A = A_asymShape_m M
      in case set_block A iLayer (nat p)
                (\<lambda>s q. item A [iLayer, s, nat p, q]
                        + degree_chipq chipq f p s q * of_real rAsym_m
                            / of_real (rSigChange_m ! iLayer)) of
           Inl e \<Rightarrow> Inl e
         | Inr A1 \<Rightarrow>
             (case getitem A1 [int iLayer, 0, 0, 0] of
                Inl e \<Rightarrow> Inl e
              | Inr a0 \<Rightarrow>
                  Inr (M\<lparr>A_asymShape_m := A1,
                         A_zMeanAsym_km := A_zMeanAsym_km M @ [Re (of_real R_m - a0) / 1000],
                         A_iAsymBds := A_iAsymBds M @ [iLayer]\<rparr>)))"

text \<open>Per-boundary mode, lines 798-819: one file.\<close>

definition boundary_file ::
  "(int \<Rightarrow> real list \<Rightarrow> real list \<Rightarrow> nat \<Rightarrow> nat \<Rightarrow> complex) \<Rightarrow> real \<Rightarrow> real list \<Rightarrow> int
   \<Rightarrow> shape_file \<Rightarrow> asym_state \<Rightarrow> py_error + asym_state" where
  "boundary_file chipq R_m rSigChange_m pMaxAll f M =
     (case max_nonzero_degree f of
        Inl e \<Rightarrow> Inl e
      | Inr pMaxNonzero \<Rightarrow>
          (case check_first_row f of
             Inl e \<Rightarrow> Inl e
           | Inr _ \<Rightarrow>
               (case sf_Cpq_km f of
                  [] \<Rightarrow> Inl IndexError
                | c0 # _ \<Rightarrow>
                    (let rAsym_m = R_m - c0 * 1000
                     in case argmin_abs (map (\<lambda>r. r - rAsym_m) rSigChange_m) of
                          Inl e \<Rightarrow> Inl e
                        | Inr iLayer \<Rightarrow>
                            (case setitem (A_asymShape_m M) [int iLayer, 0, 0, 0]
                                    (of_real (rSigChange_m ! iLayer)) of
                               Inl e \<Rightarrow> Inl e
                             | Inr A0 \<Rightarrow>
                                 for_loop
                                   (boundary_degree chipq R_m rSigChange_m f rAsym_m iLayer)
                                   [1..min pMaxNonzero pMaxAll]
                                   (M\<lparr>A_asymShape_m := A0\<rparr>))))))"

text \<open>Per-boundary mode, lines 772-819: every file found.\<close>

definition per_boundary_shape ::
  "(int \<Rightarrow> real list \<Rightarrow> real list \<Rightarrow> nat \<Rightarrow> nat \<Rightarrow> complex) \<Rightarrow> real \<Rightarrow> real list
   \<Rightarrow> shape_file list \<Rightarrow> asym_state \<Rightarrow> py_error + asym_state" where
  "per_boundary_shape chipq R_m rSigChange_m files M =
     (case map_err max_nonzero_degree files of
        Inl e \<Rightarrow> Inl e
      | Inr pMaxEntries \<Rightarrow>
          (let pMaxNonzero = (case pMaxEntries of [] \<Rightarrow> 0 | e # es \<Rightarrow> fold max es e);
               pMax0 = (case pMaxEntries of [] \<Rightarrow> Some 0 | _ \<Rightarrow> A_pMax M);
               pMax = (case pMax0 of
                         None \<Rightarrow> pMaxNonzero
                       | Some p \<Rightarrow> if p > pMaxNonzero then pMaxNonzero else p)
           in case zeros4 (length rSigChange_m) pMax of
                Inl e \<Rightarrow> Inl e
              | Inr Z \<Rightarrow>
                  for_loop (boundary_file chipq R_m rSigChange_m pMax) files
                    (M\<lparr>A_pMax := Some pMax, A_asymShape_m := Z\<rparr>)))"

text \<open>
  \<open>SetGravShape\<close>, lines 646-695: the degree-2 block of every boundary of the gravity array.
  \<open>normFactor_4pi\<close> is MoonMag's \<open>norm4pi\<close>, a parameter; an unset \<open>Cmeasured\<close> raises \<open>TypeError\<close>.
\<close>

definition SetGravShape ::
  "(int \<Rightarrow> real list \<Rightarrow> real list \<Rightarrow> nat \<Rightarrow> nat \<Rightarrow> complex) \<Rightarrow> (int \<Rightarrow> int \<Rightarrow> real)
   \<Rightarrow> bulk \<Rightarrow> real list \<Rightarrow> asym_state \<Rightarrow> py_error + bulk \<times> asym_state" where
  "SetGravShape chipq normFactor_4pi B rSigChange_m M =
     (let B1 = (if B_J2 B = None \<and> B_C20 B = None then B\<lparr>B_J2 := Some 0, B_C20 := Some 0\<rparr>
                else if B_C20 B = None then B\<lparr>B_C20 := map_option uminus (B_J2 B)\<rparr>
                else B);
          B2 = (if B_C22 B1 = None then B1\<lparr>B_C22 := Some 0\<rparr> else B1);
          B3 = (if B_C21 B2 = None then B2\<lparr>B_C21 := Some 0\<rparr> else B2);
          B4 = (if B_S21 B3 = None then B3\<lparr>B_S21 := Some 0\<rparr> else B3);
          B5 = (if B_S22 B4 = None then B4\<lparr>B_S22 := Some 0\<rparr> else B4);
          C2q = [the (B_C20 B5), the (B_C21 B5), the (B_C22 B5)];
          S2q = [0, the (B_S21 B5), the (B_S22 B5)]
      in case B_Cmeasured B5 of
           None \<Rightarrow> Inl TypeError
         | Some Cmeasured \<Rightarrow>
             (let u = (5 / 2 * (1 - 3 / 2 * Cmeasured)) ^ 2;
                  kf = (4 - u) / (1 + u);
                  hf = kf + 1;
                  H2c_m = map (\<lambda>c. hf * c * B_R_m B5) C2q;
                  H2s_m = map (\<lambda>c. hf * c * B_R_m B5) S2q;
                  H2c_4pi_m = map (\<lambda>q. H2c_m ! q / normFactor_4pi 2 (int q)) [0..<3];
                  H2s_4pi_m = map (\<lambda>q. H2s_m ! q / normFactor_4pi 2 (int q)) [0..<3];
                  g_chipq_m = chipq 2 H2c_4pi_m H2s_4pi_m;
                  radialScale = map (\<lambda>r. r / B_R_m B5) rSigChange_m
              in case for_loop
                        (\<lambda>iLayer G. set_block G iLayer 2
                                       (\<lambda>s q. g_chipq_m s q * of_real (radialScale ! iLayer)))
                        [0..<length radialScale] (A_gravShape_m M) of
                   Inl e \<Rightarrow> Inl e
                 | Inr G \<Rightarrow>
                     (case argmin_abs (map (\<lambda>x. x - 1) radialScale) of
                        Inl e \<Rightarrow> Inl e
                      | Inr iBd \<Rightarrow>
                          Inr (B5, M\<lparr>A_gravShape_m := G,
                                     A_zMeanAsym_km := A_zMeanAsym_km M @ [0],
                                     A_iAsymBds := A_iAsymBds M @ [iBd]\<rparr>))))"

text \<open>
  \<open>SetAsymShape\<close>.  \<open>found\<close> and \<open>backup\<close> are the files matching the two search patterns, with
  their contents; \<open>fName\<close> is the one file concentric mode asks for.  The result of the first
  part is the state and whether asymmetry from files is skipped.
\<close>

text \<open>
  Lines 713-720: the files the search settles on.  The backup pattern is tried only when the
  body's name differs from the planet's name and the first pattern finds nothing.
\<close>

definition shape_files :: "bool \<Rightarrow> 'a list \<Rightarrow> 'a list \<Rightarrow> 'a list" where
  "shape_files name_is_bodyname found backup =
     (if name_is_bodyname then found else if length found = 0 then backup else found)"

definition shape_from_files ::
  "(int \<Rightarrow> real list \<Rightarrow> real list \<Rightarrow> nat \<Rightarrow> nat \<Rightarrow> complex) \<Rightarrow> bool
   \<Rightarrow> (string \<times> shape_file) list \<Rightarrow> (string \<times> shape_file) list \<Rightarrow> bool \<Rightarrow> string
   \<Rightarrow> real \<Rightarrow> real list \<Rightarrow> asym_state \<Rightarrow> py_error + asym_state \<times> bool" where
  "shape_from_files chipq name_is_bodyname found backup CONCENTRIC_ASYM fName R_m rSigChange_m M =
     (let shapeFiles = shape_files name_is_bodyname found backup;
          SKIP_ASYM = (length shapeFiles = 0)
      in if CONCENTRIC_ASYM then
           (case map_of shapeFiles fName of
              Some f \<Rightarrow>
                (case concentric_shape chipq R_m rSigChange_m f M of
                   Inl e \<Rightarrow> Inl e
                 | Inr M1 \<Rightarrow> Inr (M1, SKIP_ASYM))
            | None \<Rightarrow> Inr (M, True))
         else
           (case per_boundary_shape chipq R_m rSigChange_m (map snd shapeFiles) M of
              Inl e \<Rightarrow> Inl e
            | Inr M1 \<Rightarrow> Inr (M1, SKIP_ASYM)))"

text \<open>
  Lines 821-828: without a shape file the cap becomes 2 and the array is all zeros; otherwise
  the lists of mean depths and boundaries are made unique.
\<close>

definition skip_or_unique :: "real list \<Rightarrow> asym_state \<Rightarrow> bool \<Rightarrow> py_error + asym_state" where
  "skip_or_unique rSigChange_m M1 SKIP_ASYM =
     (if SKIP_ASYM then
        (case zeros4 (length rSigChange_m) 2 of
           Inl e \<Rightarrow> Inl e
         | Inr Z \<Rightarrow> Inr (M1\<lparr>A_pMax := Some 2, A_asymShape_m := Z\<rparr>))
      else
        Inr (M1\<lparr>A_zMeanAsym_km := remdups (sort (A_zMeanAsym_km M1)),
                A_iAsymBds := remdups (sort (A_iAsymBds M1))\<rparr>))"

text \<open>Lines 830-835: default lists of degree and order, and a gravity array of zeros.\<close>

definition init_gravShape :: "asym_state \<Rightarrow> int \<Rightarrow> asym_state" where
  "init_gravShape M2 pMax =
     (let M3 = (if A_pLin M2 = None
                then M2\<lparr>A_pLin := Some (nLin pMax), A_qLin := Some (mLin pMax)\<rparr>
                else M2)
      in M3\<lparr>A_gravShape_m := \<lparr>shape = shape (A_asymShape_m M3), item = (\<lambda>_. 0)\<rparr>\<rparr>)"

definition SetAsymShape ::
  "(int \<Rightarrow> real list \<Rightarrow> real list \<Rightarrow> nat \<Rightarrow> nat \<Rightarrow> complex) \<Rightarrow> (int \<Rightarrow> int \<Rightarrow> real) \<Rightarrow> bool
   \<Rightarrow> (string \<times> shape_file) list \<Rightarrow> (string \<times> shape_file) list \<Rightarrow> bool \<Rightarrow> string
   \<Rightarrow> bulk \<Rightarrow> real list \<Rightarrow> asym_state \<Rightarrow> py_error + bulk \<times> asym_state" where
  "SetAsymShape chipq normFactor_4pi name_is_bodyname found backup CONCENTRIC_ASYM fName B
       rSigChange_m M =
     (case shape_from_files chipq name_is_bodyname found backup CONCENTRIC_ASYM fName (B_R_m B)
             rSigChange_m M of
        Inl e \<Rightarrow> Inl e
      | Inr (M1, SKIP_ASYM) \<Rightarrow>
          (case skip_or_unique rSigChange_m M1 SKIP_ASYM of
             Inl e \<Rightarrow> Inl e
           | Inr M2 \<Rightarrow>
               (case A_pMax M2 of
                  None \<Rightarrow> Inl TypeError
                | Some pMax \<Rightarrow>
                    if pMax \<ge> 2
                    then SetGravShape chipq normFactor_4pi B rSigChange_m (init_gravShape M2 pMax)
                    else Inr (B, init_gravShape M2 pMax))))"

definition degree0_set :: "real list \<Rightarrow> nat set \<Rightarrow> complex ndarray \<Rightarrow> bool" where
  "degree0_set rSig S A \<longleftrightarrow> (\<forall>l\<in>S. item A [l, 0, 0, 0] = of_real (rSig ! l))"

text \<open>The boundary nearest to the reference radius of a file (none if there is no boundary).\<close>

definition nearest_boundary :: "real \<Rightarrow> real list \<Rightarrow> shape_file \<Rightarrow> nat set" where
  "nearest_boundary R_m rSigChange_m f =
     (case sf_Cpq_km f of
        [] \<Rightarrow> {}
      | c0 # _ \<Rightarrow>
          (case argmin_abs (map (\<lambda>r. r - (R_m - c0 * 1000)) rSigChange_m) of
             Inl _ \<Rightarrow> {}
           | Inr i \<Rightarrow> {i}))"

definition degree0_exact :: "real list \<Rightarrow> nat set \<Rightarrow> asym_state \<Rightarrow> bool" where
  "degree0_exact rSig S M \<longleftrightarrow>
     (\<forall>l. item (A_asymShape_m M) [l, 0, 0, 0] = (if l \<in> S then of_real (rSig ! l) else 0))"

text \<open>The shape of the asymmetric array goes with the degree cap.\<close>

definition shaped :: "nat \<Rightarrow> asym_state \<Rightarrow> bool" where
  "shaped n M \<longleftrightarrow>
     (\<exists>p. A_pMax M = Some p \<and> shape (A_asymShape_m M) = [n, 2, nat (p + 1), nat (p + 1)])"

text \<open>
  An example in per-boundary mode: boundaries at 50 km and 100 km of a body of radius 100 km,
  and one shape file that gives a mean depth of 10 km and no deviation of degree 1.  The
  requested cap is 2.  MoonMag is never called on this input.
\<close>

definition depth_only_file :: shape_file where
  "depth_only_file =
     \<lparr>sf_pLin = [0, 1, 1], sf_qLin = [0, 0, 1], sf_Cpq_km = [10, 0, 0], sf_Spq_km = [0, 0, 0]\<rparr>"

definition example_bulk :: bulk where
  "example_bulk =
     \<lparr>B_R_m = 100000, B_J2 = None, B_C20 = None, B_C21 = None, B_C22 = None, B_S21 = None,
      B_S22 = None, B_Cmeasured = Some (1 / 3)\<rparr>"

definition example_magnetic :: asym_state where
  "example_magnetic =
     \<lparr>A_pMax = Some 2,
      A_asymShape_m = \<lparr>shape = [2, 2, 1, 1], item = (\<lambda>_. 0)\<rparr>,
      A_gravShape_m = \<lparr>shape = [2, 2, 1, 1], item = (\<lambda>_. 0)\<rparr>,
      A_zMeanAsym_km = [], A_iAsymBds = [], A_pLin = None, A_qLin = None\<rparr>"

definition example_rSigChange_m :: "real list" where
  "example_rSigChange_m = [50000, 100000]"

definition example_shapes :: "py_error + bulk \<times> asym_state" where
  "example_shapes =
     SetAsymShape (\<lambda>p C S s q. 0) (\<lambda>p q. 1) True [(''EuropaShape_4piNormDepth.txt'', depth_only_file)] []
       False ''EuropaShape_4piNormDepth.txt'' example_bulk example_rSigChange_m example_magnetic"

subsection \<open>Asymmetry in SetupInduction (lines 478-495, 510-512)\<close>











section \<open>Properties\<close>

subsection \<open>Linear lists of degree and order (CalcInducedMoments, lines 97-101)\<close>

lemma nLin_split:
  assumes "1 \<le> n" "n \<le> nMax"
  shows "nLin nMax = nLin (n - 1) @ map (\<lambda>_. n) [- n..n]
                     @ concat (map (\<lambda>n. map (\<lambda>_. n) [- n..n]) [n + 1..nMax])"
  using assms by (simp add: nLin_def upto_split3 [of 1 n nMax])

lemma mLin_split:
  assumes "1 \<le> n" "n \<le> nMax"
  shows "mLin nMax = mLin (n - 1) @ [- n..n]
                     @ concat (map (\<lambda>n. map (\<lambda>m. m) [- n..n]) [n + 1..nMax])"
  using assms by (simp add: mLin_def upto_split3 [of 1 n nMax])

lemma length_nLin_nat: "length (nLin (int N)) = N * N + 2 * N"
proof (induction N)
  case 0
  show ?case by (simp add: nLin_def)
next
  case (Suc N)
  have "[1..int (Suc N)] = [1..int N] @ [int N + 1]"
    using upto_rec2 [of 1 "int N + 1"] by (simp add: add.commute)
  then have "nLin (int (Suc N)) = nLin (int N) @ map (\<lambda>_. int N + 1) [- (int N + 1)..int N + 1]"
    by (simp add: nLin_def)
  then show ?case using Suc by (simp add: nat_add_distrib)
qed

lemma length_mLin_nat: "length (mLin (int N)) = N * N + 2 * N"
proof (induction N)
  case 0
  show ?case by (simp add: mLin_def)
next
  case (Suc N)
  have "[1..int (Suc N)] = [1..int N] @ [int N + 1]"
    using upto_rec2 [of 1 "int N + 1"] by (simp add: add.commute)
  then have "mLin (int (Suc N)) = mLin (int N) @ [- (int N + 1)..int N + 1]"
    by (simp add: mLin_def)
  then show ?case using Suc by (simp add: nat_add_distrib)
qed

lemma length_nLin: "0 \<le> n \<Longrightarrow> length (nLin n) = nat (n * n + 2 * n)"
  using length_nLin_nat [of "nat n"]
  by (simp add: nat_add_distrib nat_mult_distrib)

lemma length_mLin: "0 \<le> n \<Longrightarrow> length (mLin n) = nat (n * n + 2 * n)"
  using length_mLin_nat [of "nat n"]
  by (simp add: nat_add_distrib nat_mult_distrib)

lemma lin_index_split:
  assumes "1 \<le> n" "- n \<le> m" "m \<le> n"
  shows "nat (n * n + n + m - 1) = nat ((n - 1) * (n - 1) + 2 * (n - 1)) + nat (m + n)"
proof -
  have "(n - 1) * (n - 1) + 2 * (n - 1) = n * n - 1" by (simp add: algebra_simps)
  moreover have "0 \<le> n * n - 1" using assms(1)
    by (smt (verit) mult_le_cancel_left1)
  ultimately show ?thesis using assms by (simp add: nat_add_distrib [symmetric])
qed

lemma zip_nLin_mLin_nat:
  "zip (nLin (int N)) (mLin (int N)) = concat (map (\<lambda>n. map (Pair n) [- n..n]) [1..int N])"
proof (induction N)
  case 0
  show ?case by (simp add: nLin_def mLin_def)
next
  case (Suc N)
  have u: "[1..int (Suc N)] = [1..int N] @ [int N + 1]"
    using upto_rec2 [of 1 "int N + 1"] by (simp add: add.commute)
  have n: "nLin (int (Suc N)) = nLin (int N) @ map (\<lambda>_. int N + 1) [- (int N + 1)..int N + 1]"
    using u by (simp add: nLin_def)
  have m: "mLin (int (Suc N)) = mLin (int N) @ [- (int N + 1)..int N + 1]"
    using u by (simp add: mLin_def)
  have l: "length (nLin (int N)) = length (mLin (int N))"
    by (simp add: length_nLin_nat length_mLin_nat)
  have z: "zip (map (\<lambda>_. int N + 1) [- (int N + 1)..int N + 1]) [- (int N + 1)..int N + 1]
           = map (Pair (int N + 1)) [- (int N + 1)..int N + 1]"
    by (simp add: zip_map1 zip_same_conv_map)
  have "zip (nLin (int (Suc N))) (mLin (int (Suc N)))
        = zip (nLin (int N)) (mLin (int N)) @ map (Pair (int N + 1)) [- (int N + 1)..int N + 1]"
    unfolding n m using l z by (simp only: zip_append)
  also have "\<dots> = concat (map (\<lambda>n. map (Pair n) [- n..n]) ([1..int N] @ [int N + 1]))"
    by (simp add: Suc.IH)
  finally show ?case by (simp only: u)
qed

lemma distinct_lin_pairs:
  "distinct (concat (map (\<lambda>n. map (Pair n) [- n..n]) [1..N]))"
proof (rule distinct_concat)
  have "inj_on (\<lambda>n. map (Pair n) [- n..n]) (set [1..N])"
  proof (rule inj_onI)
    fix a b assume a: "a \<in> set [1..N]" and b: "b \<in> set [1..N]"
      and e: "map (Pair a) [- a..a] = map (Pair b) [- b..b]"
    from a have "(a, a) \<in> set (map (Pair a) [- a..a])" by simp
    with e have "(a, a) \<in> set (map (Pair b) [- b..b])" by simp
    then show "a = b" by auto
  qed
  then show "distinct (map (\<lambda>n. map (Pair n) [- n..n]) [1..N])"
    by (simp add: distinct_map)
next
  fix ys assume "ys \<in> set (map (\<lambda>n. map (Pair n) [- n..n]) [1..N])"
  then show "distinct ys" by (auto simp: distinct_map inj_on_def)
next
  fix ys zs
  assume "ys \<in> set (map (\<lambda>n. map (Pair n) [- n..n]) [1..N])"
    "zs \<in> set (map (\<lambda>n. map (Pair n) [- n..n]) [1..N])" "ys \<noteq> zs"
  then show "set ys \<inter> set zs = {}" by auto
qed

lemma lin_pairs_unique:
  assumes "0 \<le> N" "j < length (nLin N)" "k < length (nLin N)"
    "nLin N ! j = nLin N ! k" "mLin N ! j = mLin N ! k"
  shows "j = k"
proof -
  let ?z = "zip (nLin N) (mLin N)"
  have len: "length (mLin N) = length (nLin N)"
    using assms(1) by (simp add: length_nLin length_mLin)
  have d: "distinct ?z"
    using zip_nLin_mLin_nat [of "nat N"] distinct_lin_pairs [of N] assms(1) by simp
  have e: "?z ! j = ?z ! k" using assms len by simp
  have jl: "j < length ?z" and kl: "k < length ?z" using assms len by simp_all
  from nth_eq_iff_index_eq [OF d jl kl] e show ?thesis by blast
qed

text \<open>
  C6 (as amended).  The lists start at degree 1, so the entry for degree \<open>n\<close> and order \<open>m\<close>
  (with \<open>1 \<le> n \<le> nMax\<close> and \<open>-n \<le> m \<le> n\<close>) sits at the zero-based index \<open>n\<^sup>2 + n + m - 1\<close> of
  \<open>nLin\<close> and \<open>mLin\<close>, and at no other index; that is, it is the \<open>(n\<^sup>2 + n + m)\<close>-th entry
  counting from one.
\<close>

theorem C6_linear_index:
  assumes "1 \<le> n" "n \<le> nMax" "- n \<le> m" "m \<le> n"
  shows "nat (n * n + n + m - 1) < length (nLin nMax)
       \<and> length (mLin nMax) = length (nLin nMax)
       \<and> nLin nMax ! nat (n * n + n + m - 1) = n
       \<and> mLin nMax ! nat (n * n + n + m - 1) = m
       \<and> (\<forall>j<length (nLin nMax). nLin nMax ! j = n \<and> mLin nMax ! j = m
              \<longrightarrow> j = nat (n * n + n + m - 1))"
proof -
  let ?k = "nat (n * n + n + m - 1)"
  let ?p = "nat ((n - 1) * (n - 1) + 2 * (n - 1))"
  have k: "?k = ?p + nat (m + n)" using assms by (rule_tac lin_index_split) auto
  have lp: "length (nLin (n - 1)) = ?p" "length (mLin (n - 1)) = ?p"
    using assms(1) by (simp_all add: length_nLin length_mLin)
  have inb: "nat (m + n) < length [- n..n]" using assms by simp
  have n1: "nLin nMax ! ?k = n"
    using inb lp by (simp add: nLin_split [OF assms(1,2)] k nth_append)
  have m1: "mLin nMax ! ?k = m"
    using inb lp assms by (simp add: mLin_split [OF assms(1,2)] k nth_append)
  have "?k < length (nLin nMax)"
    using inb lp assms by (simp add: nLin_split [OF assms(1,2)] k)
  then have kl: "?k < length (nLin nMax)" .
  have len: "length (mLin nMax) = length (nLin nMax)"
    using assms by (simp add: length_nLin length_mLin)
  have uniq: "\<forall>j<length (nLin nMax). nLin nMax ! j = n \<and> mLin nMax ! j = m \<longrightarrow> j = ?k"
  proof (intro allI impI)
    fix j assume j: "j < length (nLin nMax)" and e: "nLin nMax ! j = n \<and> mLin nMax ! j = m"
    have "0 \<le> nMax" using assms by simp
    from lin_pairs_unique [OF this j kl] e n1 m1 show "j = ?k" by simp
  qed
  from kl len n1 m1 uniq show ?thesis by blast
qed

theorem C6_linear_index_witness:
  "nat (2 * 2 + 2 + (- 1) - 1) < length (nLin 2)
   \<and> length (mLin 2) = length (nLin 2)
   \<and> nLin 2 ! nat (2 * 2 + 2 + (- 1) - 1) = 2
   \<and> mLin 2 ! nat (2 * 2 + 2 + (- 1) - 1) = - 1"
  using C6_linear_index [of 2 2 "- 1"] by simp

text \<open>
  C6 as stated fails: with \<open>nMax = 1\<close> the lists are \<open>[1, 1, 1]\<close> and \<open>[-1, 0, 1]\<close>, and the entry
  at index \<open>1\<^sup>2 + 1 + (-1) = 1\<close> is the one for order 0, not for order \<open>-1\<close>.
\<close>

theorem C6_counterexample:
  "zip (nLin 1) (mLin 1) ! nat (1 * 1 + 1 + (- 1)) \<noteq> (1, - 1)"
  by (simp add: nLin_def mLin_def upto.simps)

subsection \<open>The frozen-ocean check of SetupInduction (lines 400-408)\<close>

text \<open>
  C8 (as amended).  When the profile has no liquid layer and the run is not in \<open>sigma\<close> mode,
  the check sets \<open>Planet.Do.VALID\<close> to False exactly when \<open>DO_INDUCTOGRAM\<close> is set, and then it
  also records the reason and logs an info message.  In every other run \<open>VALID\<close> and the reason
  keep the values they had, and the only effect is one debug message, logged exactly when
  \<open>REDUCED_INDUCT\<close> is set and the body is not \<open>NO_H2O\<close>; without those nothing is logged.
  (Line 404 is the only assignment to \<open>Do.VALID\<close> in SetupInduction.)
\<close>

theorem C8_frozen_invalid_only_for_inductogram:
  assumes "length (indsLiq phase) = 0" "inductOtype \<noteq> ''sigma''"
  shows "Do_VALID (frozen_check phase inductOtype DO_INDUCTOGRAM REDUCED_INDUCT NO_H2O st)
         = (if DO_INDUCTOGRAM then False else Do_VALID st)
       \<and> invalidReason (frozen_check phase inductOtype DO_INDUCTOGRAM REDUCED_INDUCT NO_H2O st)
         = (if DO_INDUCTOGRAM then Some ''Ocean completely frozen in inductogram''
            else invalidReason st)
       \<and> logged (frozen_check phase inductOtype DO_INDUCTOGRAM REDUCED_INDUCT NO_H2O st)
         = logged st
           @ (if DO_INDUCTOGRAM then [(Info, frozen_info)]
              else if REDUCED_INDUCT \<and> \<not> NO_H2O then [(Debug, frozen_debug)]
              else [])"
  using assms by (simp add: frozen_check_def)

theorem C8_frozen_invalid_witness:
  "length (indsLiq [1, 50]) = 0 \<and> ''Tb'' \<noteq> ''sigma''
   \<and> Do_VALID (frozen_check [1, 50] ''Tb'' False True False
        \<lparr>Do_VALID = True, invalidReason = None, logged = []\<rparr>) = True
   \<and> invalidReason (frozen_check [1, 50] ''Tb'' False True False
        \<lparr>Do_VALID = True, invalidReason = None, logged = []\<rparr>) = None
   \<and> logged (frozen_check [1, 50] ''Tb'' False True False
        \<lparr>Do_VALID = True, invalidReason = None, logged = []\<rparr>) = [(Debug, frozen_debug)]"
  using C8_frozen_invalid_only_for_inductogram
    [of "[1, 50]" "''Tb''" False True False "\<lparr>Do_VALID = True, invalidReason = None, logged = []\<rparr>"]
  by (simp add: indsLiq_def)

text \<open>
  C8 as stated fails: a profile of ice over rock (no liquid layer), not in \<open>sigma\<close> mode, with
  neither reduced induction nor a waterless body, stays valid when no inductogram is run.
\<close>

theorem C8_counterexample:
  "length (indsLiq [1, 50]) = 0 \<and> ''Tb'' \<noteq> ''sigma''
   \<and> Do_VALID (frozen_check [1, 50] ''Tb'' False False False
        \<lparr>Do_VALID = True, invalidReason = None, logged = []\<rparr>) = True"
  by (simp add: indsLiq_def frozen_check_def)

subsection \<open>The cache of coupling coefficients in SetupInduction (lines 496-509)\<close>

text \<open>
  C5 (the code at the failing input).  Starting from an empty cache, a first use with
  \<open>(nprmMax, pMax) = (1, 2)\<close> builds and stores the tensor for the triple \<open>(1, 2, 3)\<close>; a second
  use with \<open>(1, 4)\<close>, whose triple is \<open>(1, 4, 5)\<close>, finds the same label and is handed the tensor
  built for \<open>(1, 2, 3)\<close>, and no second entry is created.
\<close>

theorem C5_cache_ignores_triple:
  "fetch_Xid LoadXid 1 4
     (snd (fetch_Xid LoadXid 1 2 \<lparr>loaded = Map.empty, ranges = Map.empty\<rparr>))
   = (LoadXid 1 2 3 (nLin 3) (mLin 3),
      \<lparr>loaded = [XidLabel \<mapsto> LoadXid 1 2 3 (nLin 3) (mLin 3)],
       ranges = [XidLabel \<mapsto> (1, 2, 3)]\<rparr>)"
  by (simp add: fetch_Xid_def Let_def)

subsection \<open>The numeric method: wavenumber lookup and the ODE (lines 111-119, 364-385)\<close>

lemma first_at_least_Some:
  "first_at_least rBds r = Some i \<Longrightarrow>
     i < length rBds \<and> r \<le> rBds ! i \<and> (\<forall>j<i. rBds ! j < r)"
proof (induction rBds arbitrary: i)
  case Nil
  then show ?case by simp
next
  case (Cons b bs)
  show ?case
  proof (cases "b \<ge> r")
    case True
    with Cons.prems show ?thesis by simp
  next
    case False
    with Cons.prems obtain i' where i': "first_at_least bs r = Some i'" "i = Suc i'"
      by auto
    from Cons.IH [OF i'(1)] have ih: "i' < length bs" "r \<le> bs ! i'" "\<forall>j<i'. bs ! j < r"
      by simp_all
    have "\<forall>j<Suc i'. (b # bs) ! j < r"
    proof (intro allI impI)
      fix j assume "j < Suc i'"
      then show "(b # bs) ! j < r" using False ih(3) by (cases j) auto
    qed
    with ih i'(2) show ?thesis by simp
  qed
qed

lemma first_at_least_None:
  "first_at_least rBds r = None \<longleftrightarrow> (\<forall>b\<in>set rBds. b < r)"
  by (induction rBds) auto

lemma first_at_least_last:
  assumes "rBds \<noteq> []" "r \<le> last rBds"
  shows "\<exists>i. first_at_least rBds r = Some i"
proof -
  have "last rBds \<in> set rBds" using assms(1) by simp
  with assms(2) have "\<not> (\<forall>b\<in>set rBds. b < r)" by force
  then have "first_at_least rBds r \<noteq> None" by (simp add: first_at_least_None)
  then show ?thesis by auto
qed

text \<open>
  C10.  \<open>fn_k\<close> is partial: where some boundary is at or above \<open>r\<close> it returns the wavenumber
  at the first such boundary, and where \<open>r\<close> is strictly above every boundary it raises
  \<open>StopIteration\<close>.  With one wavenumber per boundary and a non-empty boundary list, every
  radius of the integration span, \<open>rMin \<le> r \<le> rBds[-1]\<close>, is answered with a wavenumber, so
  the error branch is not reached there.
\<close>

theorem C10_fn_k_partial:
  assumes "length kBlw_pm = length rBds_m"
  shows "((\<forall>b\<in>set rBds_m. b < r) \<longrightarrow> fn_k kBlw_pm rBds_m r = Inl StopIteration)
       \<and> ((\<exists>b\<in>set rBds_m. r \<le> b) \<longrightarrow>
            (\<exists>i<length rBds_m. r \<le> rBds_m ! i \<and> (\<forall>j<i. rBds_m ! j < r)
                \<and> fn_k kBlw_pm rBds_m r = Inr (kBlw_pm ! i)))
       \<and> (rBds_m \<noteq> [] \<and> rMin \<le> r \<and> r \<le> last rBds_m \<longrightarrow>
            (\<exists>i<length rBds_m. fn_k kBlw_pm rBds_m r = Inr (kBlw_pm ! i)))"
proof (intro conjI impI)
  assume "\<forall>b\<in>set rBds_m. b < r"
  then have "first_at_least rBds_m r = None" by (simp add: first_at_least_None)
  then show "fn_k kBlw_pm rBds_m r = Inl StopIteration" by (simp add: fn_k_def)
next
  assume "\<exists>b\<in>set rBds_m. r \<le> b"
  then have "\<not> (\<forall>b\<in>set rBds_m. b < r)"
    using linorder_not_less by blast
  then have "first_at_least rBds_m r \<noteq> None"
    by (simp add: first_at_least_None)
  then obtain i where i: "first_at_least rBds_m r = Some i" by auto
  from first_at_least_Some [OF i] assms i
  show "\<exists>i<length rBds_m. r \<le> rBds_m ! i \<and> (\<forall>j<i. rBds_m ! j < r)
          \<and> fn_k kBlw_pm rBds_m r = Inr (kBlw_pm ! i)"
    by (auto simp: fn_k_def)
next
  assume a: "rBds_m \<noteq> [] \<and> rMin \<le> r \<and> r \<le> last rBds_m"
  then obtain i where i: "first_at_least rBds_m r = Some i"
    using first_at_least_last by blast
  from first_at_least_Some [OF i] assms i
  show "\<exists>i<length rBds_m. fn_k kBlw_pm rBds_m r = Inr (kBlw_pm ! i)"
    by (auto simp: fn_k_def)
qed

theorem C10_fn_k_partial_witness:
  "fn_k [1, \<i>] [10, 20] 25 = Inl StopIteration
   \<and> fn_k [1, \<i>] [10, 20] 15 = Inr \<i>
   \<and> (\<exists>i<length [10, 20 :: real]. fn_k [1, \<i>] [10, 20] 20 = Inr ([1, \<i>] ! i))"
proof -
  have len: "length [1, \<i>] = length [10, 20 :: real]" by simp
  have a: "fn_k [1, \<i>] [10, 20] 25 = Inl StopIteration"
    using C10_fn_k_partial [OF len, of 25 0] by simp
  have b: "\<exists>i<length [10, 20 :: real]. fn_k [1, \<i>] [10, 20] 20 = Inr ([1, \<i>] ! i)"
    using C10_fn_k_partial [OF len, of 20 1] by simp
  have c: "fn_k [1, \<i>] [10, 20] 15 = Inr \<i>" by (simp add: fn_k_def)
  from a b c show ?thesis by simp
qed

text \<open>
  C2.  In the numeric method the right-hand side handed to the solver is the stated one:
  at every radius \<open>r \<noteq> 0\<close> that has a boundary at or above it, \<open>dQdr_call\<close> returns
  \<open>-k\<^sup>2 r (n+1)/((2n+1) n) (Q - n/(n+1))\<^sup>2 - (2n+1)/r Q\<close> with \<open>k = sqrt(i mu0 omega sigma)\<close> of the
  first layer whose outer boundary is at or above \<open>r\<close>; the integration runs from \<open>rMin\<close> to the
  outermost boundary from the initial value 0; and the amplitude of degree \<open>n\<close> is the
  solver's last value times \<open>(R_surface / R_ref)^(n+2) (n+1)/n\<close>, where \<open>R_surface\<close> is the
  outermost boundary and \<open>R_ref\<close> the body radius.  The degree is at least 1 and the radii
  divided by are not zero, so that no division of the code is by zero.
\<close>

theorem C2_numeric_method:
  assumes "1 \<le> n" "length sigmaLayers_Sm = length rSigChange_m" "rSigChange_m \<noteq> []"
    and "R_m \<noteq> 0"
  shows "(\<forall>r Q. r \<noteq> 0 \<and> r \<le> last rSigChange_m \<longrightarrow>
            (\<exists>i<length rSigChange_m. r \<le> rSigChange_m ! i \<and> (\<forall>j<i. rSigChange_m ! j < r)
               \<and> dQdr_call n (wavenumbers mu0 omega sigmaLayers_Sm) rSigChange_m r Q
                 = Inr (spec_dQdr n
                          (csqrt (\<i> * of_real mu0 * of_real omega * of_real (sigmaLayers_Sm ! i)))
                          r Q)))
       \<and> Aen_numeric ODEsolve mu0 omega sigmaLayers_Sm rSigChange_m R_m rMin n
         = (case ODEsolve (dQdr_call n (wavenumbers mu0 omega sigmaLayers_Sm) rSigChange_m)
                   (rMin, last rSigChange_m) 0 of
              Inl e \<Rightarrow> Inl e
            | Inr Qend \<Rightarrow>
                Inr (Qend * of_real ((last rSigChange_m / R_m) ^ nat (n + 2))
                       * (of_int (n + 1) / of_int n)))"
proof (intro conjI allI impI)
  fix r :: real and Q :: complex
  assume r: "r \<noteq> 0 \<and> r \<le> last rSigChange_m"
  then obtain i where i: "first_at_least rSigChange_m r = Some i"
    using first_at_least_last assms(3) by blast
  from first_at_least_Some [OF i]
  have f: "i < length rSigChange_m" "r \<le> rSigChange_m ! i" "\<forall>j<i. rSigChange_m ! j < r"
    by simp_all
  have k: "fn_k (wavenumbers mu0 omega sigmaLayers_Sm) rSigChange_m r
           = Inr (csqrt (\<i> * of_real mu0 * of_real omega * of_real (sigmaLayers_Sm ! i)))"
    using i f(1) assms(2) by (simp add: fn_k_def wavenumbers_def)
  have "dQdr_call n (wavenumbers mu0 omega sigmaLayers_Sm) rSigChange_m r Q
        = Inr (spec_dQdr n
                 (csqrt (\<i> * of_real mu0 * of_real omega * of_real (sigmaLayers_Sm ! i))) r Q)"
    by (simp add: dQdr_call_def k spec_dQdr_def)
  with f show "\<exists>i<length rSigChange_m. r \<le> rSigChange_m ! i \<and> (\<forall>j<i. rSigChange_m ! j < r)
               \<and> dQdr_call n (wavenumbers mu0 omega sigmaLayers_Sm) rSigChange_m r Q
                 = Inr (spec_dQdr n
                          (csqrt (\<i> * of_real mu0 * of_real omega * of_real (sigmaLayers_Sm ! i)))
                          r Q)"
    by blast
next
  have p: "power_int (last rSigChange_m / R_m) (n + 2) = (last rSigChange_m / R_m) ^ nat (n + 2)"
    using assms(1) by (simp add: power_int_def)
  show "Aen_numeric ODEsolve mu0 omega sigmaLayers_Sm rSigChange_m R_m rMin n
         = (case ODEsolve (dQdr_call n (wavenumbers mu0 omega sigmaLayers_Sm) rSigChange_m)
                   (rMin, last rSigChange_m) 0 of
              Inl e \<Rightarrow> Inl e
            | Inr Qend \<Rightarrow>
                Inr (Qend * of_real ((last rSigChange_m / R_m) ^ nat (n + 2))
                       * (of_int (n + 1) / of_int n)))"
    using assms(3) by (simp add: Aen_numeric_def SolveForQ_def p split: sum.splits)
qed

theorem C2_numeric_method_witness:
  "dQdr_call 1 (wavenumbers 1 1 [2]) [10] 5 0
     = Inr (spec_dQdr 1 (csqrt (\<i> * of_real 1 * of_real 1 * of_real 2)) 5 0)
   \<and> Aen_numeric (\<lambda>f span y0. Inr 1) 1 1 [2] [10] 5 1 1 = Inr 16"
proof -
  have h: "(1::int) \<le> 1" "length [2::real] = length [10::real]" "[10::real] \<noteq> []"
    "(5::real) \<noteq> 0"
    by simp_all
  note t = C2_numeric_method [OF h, of 1 1 "\<lambda>f span y0. Inr 1" 1]
  from t have "\<exists>i<length [10::real]. (5::real) \<le> [10] ! i \<and> (\<forall>j<i. [10] ! j < (5::real))
               \<and> dQdr_call 1 (wavenumbers 1 1 [2]) [10] 5 0
                 = Inr (spec_dQdr 1
                          (csqrt (\<i> * of_real 1 * of_real 1 * of_real ([2] ! i)))
                          5 0)"
    by simp
  then have a: "dQdr_call 1 (wavenumbers 1 1 [2]) [10] 5 0
     = Inr (spec_dQdr 1 (csqrt (\<i> * of_real 1 * of_real 1 * of_real 2)) 5 0)"
    by auto
  from t have b: "Aen_numeric (\<lambda>f span y0. Inr 1) 1 1 [2] [10] 5 1 1 = Inr 16"
    by simp
  from a b show ?thesis by simp
qed

subsection \<open>Induced moments of the symmetric case (CalcInducedMoments, lines 149-155)\<close>

lemma for_loop_grows:
  assumes step: "\<And>x S s. x \<in> set xs \<Longrightarrow> J S s \<Longrightarrow> \<exists>s'. body x s = Inr s' \<and> J (S \<union> W x) s'"
    and init: "J S s"
  shows "\<exists>s'. for_loop body xs s = Inr s' \<and> J (S \<union> (\<Union>x\<in>set xs. W x)) s'"
  using assms
proof (induction xs arbitrary: S s)
  case Nil
  then show ?case by simp
next
  case (Cons x xs)
  from Cons.prems(1) [of x S s] Cons.prems(2)
  obtain s1 where s1: "body x s = Inr s1" "J (S \<union> W x) s1" by auto
  have "\<exists>s'. for_loop body xs s1 = Inr s' \<and> J ((S \<union> W x) \<union> (\<Union>x\<in>set xs. W x)) s'"
  proof (rule Cons.IH)
    show "\<And>y S s. y \<in> set xs \<Longrightarrow> J S s \<Longrightarrow> \<exists>s'. body y s = Inr s' \<and> J (S \<union> W y) s'"
      using Cons.prems(1) by simp
    show "J (S \<union> W x) s1" by (rule s1(2))
  qed
  then obtain s' where s': "for_loop body xs s1 = Inr s'"
    "J ((S \<union> W x) \<union> (\<Union>x\<in>set xs. W x)) s'" by blast
  have "(S \<union> W x) \<union> (\<Union>x\<in>set xs. W x) = S \<union> (\<Union>y\<in>set (x # xs). W y)" by auto
  with s' s1(1) show ?case by simp
qed

lemma nLin_range: "n \<in> set (nLin N) \<Longrightarrow> 1 \<le> n \<and> n \<le> N"
  by (auto simp: nLin_def)

lemma nLin_member: "1 \<le> n \<Longrightarrow> n \<le> N \<Longrightarrow> n \<in> set (nLin N)"
proof -
  assume a: "1 \<le> n" "n \<le> N"
  have "n \<in> set (map (\<lambda>_. n) [- n..n])"
    using a by (auto simp: image_iff intro!: bexI [of _ n])
  then show ?thesis by (simp add: nLin_split [OF a] del: set_map)
qed

lemma mLin_range: "m \<in> set (mLin N) \<Longrightarrow> - N \<le> m \<and> m \<le> N"
  by (auto simp: mLin_def)

lemma mLin_member: "1 \<le> n \<Longrightarrow> n \<le> N \<Longrightarrow> - n \<le> m \<Longrightarrow> m \<le> n \<Longrightarrow> m \<in> set (mLin N)"
  by (auto simp: mLin_def)

lemma norm_index_moment:
  assumes "0 \<le> iPeak" "iPeak < int E" "0 \<le> n" "n < int D" "- int D \<le> m" "m < int D"
  shows "norm_index [E, 2, D, D] [iPeak, sign_index m, n, m] = Inr (moment_pos D iPeak n m)"
  using assms by (simp add: axis_index_def sign_index_def moment_pos_def)

lemma norm_index_amp:
  assumes "0 \<le> iPeak" "iPeak < int E" "0 \<le> n" "n < int K"
  shows "norm_index [E, K] [iPeak, n] = Inr [nat iPeak, nat n]"
  using assms by (simp add: axis_index_def)

lemma symmetric_entry_step:
  assumes sh: "shape Benm_nT = [E, 2, D, D]" "shape B = [E, 2, D, D]" "shape Aen = [E, K]"
    and rg: "0 \<le> iPeak" "iPeak < int E" "1 \<le> n" "n < int D" "n < int K"
            "- int D \<le> m" "m < int D"
  shows "symmetric_entry Benm_nT Aen iPeak n m B
         = Inr (B\<lparr>item := (item B)(moment_pos D iPeak n m
                    := symmetric_value Benm_nT Aen (moment_pos D iPeak n m))\<rparr>)"
proof -
  have n0: "0 \<le> n" "n + 1 \<noteq> 0" using rg by simp_all
  have a: "norm_index [E, 2, D, D] [iPeak, sign_index m, n, m] = Inr (moment_pos D iPeak n m)"
    using rg n0 by (intro norm_index_moment) simp_all
  have b: "norm_index [E, K] [iPeak, n] = Inr [nat iPeak, nat n]"
    using rg n0 by (intro norm_index_amp) simp_all
  have v: "symmetric_value Benm_nT Aen (moment_pos D iPeak n m)
           = of_int n / of_int (n + 1) * item Benm_nT (moment_pos D iPeak n m)
               * item Aen [nat iPeak, nat n]"
    using n0 by (simp add: symmetric_value_def moment_pos_def)
  have g1: "getitem Benm_nT [iPeak, sign_index m, n, m] = Inr (item Benm_nT (moment_pos D iPeak n m))"
    by (simp only: getitem_def sh a sum.case)
  have g2: "getitem Aen [iPeak, n] = Inr (item Aen [nat iPeak, nat n])"
    by (simp only: getitem_def sh b sum.case)
  have s3: "setitem B [iPeak, sign_index m, n, m] x
            = Inr (B\<lparr>item := (item B)(moment_pos D iPeak n m := x)\<rparr>)" for x
    by (simp only: setitem_def sh a sum.case)
  show ?thesis
    using n0(2) by (simp only: symmetric_entry_def g1 g2 s3 v sum.case if_False)
qed

lemma written_step:
  assumes "written sh val S B"
  shows "written sh val (S \<union> {p}) (B\<lparr>item := (item B)(p := val p)\<rparr>)"
  using assms by (auto simp: written_def)

lemma loop_m:
  assumes sh: "shape Benm_nT = [E, 2, D, D]" "shape Aen = [E, K]"
    and rg: "0 \<le> iPeak" "iPeak < int E" "1 \<le> n" "n < int D" "n < int K"
    and ms: "\<forall>m\<in>set ms. - int D \<le> m \<and> m < int D"
    and J: "written [E, 2, D, D] (symmetric_value Benm_nT Aen) S B"
  shows "\<exists>B'. for_loop (\<lambda>m. symmetric_entry Benm_nT Aen iPeak n m) ms B = Inr B'
          \<and> written [E, 2, D, D] (symmetric_value Benm_nT Aen)
               (S \<union> (\<Union>m\<in>set ms. {moment_pos D iPeak n m})) B'"
proof (rule for_loop_grows [where J = "written [E, 2, D, D] (symmetric_value Benm_nT Aen)"])
  fix m S' B'
  assume m: "m \<in> set ms" and w: "written [E, 2, D, D] (symmetric_value Benm_nT Aen) S' B'"
  from w have shB: "shape B' = [E, 2, D, D]" by (simp add: written_def)
  from m ms have mr: "- int D \<le> m" "m < int D" by auto
  have "symmetric_entry Benm_nT Aen iPeak n m B'
        = Inr (B'\<lparr>item := (item B')(moment_pos D iPeak n m
                    := symmetric_value Benm_nT Aen (moment_pos D iPeak n m))\<rparr>)"
    by (rule symmetric_entry_step [OF sh(1) shB sh(2) rg mr])
  with written_step [OF w]
  show "\<exists>s'. symmetric_entry Benm_nT Aen iPeak n m B' = Inr s'
          \<and> written [E, 2, D, D] (symmetric_value Benm_nT Aen) (S' \<union> {moment_pos D iPeak n m}) s'"
    by simp
next
  show "written [E, 2, D, D] (symmetric_value Benm_nT Aen) S B" by (rule J)
qed

lemma loop_n:
  assumes sh: "shape Benm_nT = [E, 2, D, D]" "shape Aen = [E, K]"
    and rg: "0 \<le> iPeak" "iPeak < int E"
    and ns: "\<forall>n\<in>set ns. 1 \<le> n \<and> n < int D \<and> n < int K"
    and ms: "\<forall>m\<in>set ms. - int D \<le> m \<and> m < int D"
    and J: "written [E, 2, D, D] (symmetric_value Benm_nT Aen) S B"
  shows "\<exists>B'. for_loop (\<lambda>n. for_loop (\<lambda>m. symmetric_entry Benm_nT Aen iPeak n m) ms) ns B = Inr B'
          \<and> written [E, 2, D, D] (symmetric_value Benm_nT Aen)
               (S \<union> (\<Union>n\<in>set ns. \<Union>m\<in>set ms. {moment_pos D iPeak n m})) B'"
proof (rule for_loop_grows [where J = "written [E, 2, D, D] (symmetric_value Benm_nT Aen)"])
  fix n S' B'
  assume n: "n \<in> set ns" and w: "written [E, 2, D, D] (symmetric_value Benm_nT Aen) S' B'"
  from n ns have nr: "1 \<le> n" "n < int D" "n < int K" by auto
  show "\<exists>s'. for_loop (\<lambda>m. symmetric_entry Benm_nT Aen iPeak n m) ms B' = Inr s'
          \<and> written [E, 2, D, D] (symmetric_value Benm_nT Aen)
               (S' \<union> (\<Union>m\<in>set ms. {moment_pos D iPeak n m})) s'"
    by (rule loop_m [OF sh rg nr ms w])
next
  show "written [E, 2, D, D] (symmetric_value Benm_nT Aen) S B" by (rule J)
qed

lemma loop_iPeak:
  assumes sh: "shape Benm_nT = [E, 2, D, D]" "shape Aen = [E, K]"
    and ips: "\<forall>i\<in>set ips. 0 \<le> i \<and> i < int E"
    and ns: "\<forall>n\<in>set ns. 1 \<le> n \<and> n < int D \<and> n < int K"
    and ms: "\<forall>m\<in>set ms. - int D \<le> m \<and> m < int D"
    and J: "written [E, 2, D, D] (symmetric_value Benm_nT Aen) S B"
  shows "\<exists>B'. for_loop (\<lambda>iPeak. for_loop (\<lambda>n.
                 for_loop (\<lambda>m. symmetric_entry Benm_nT Aen iPeak n m) ms) ns) ips B = Inr B'
          \<and> written [E, 2, D, D] (symmetric_value Benm_nT Aen)
               (S \<union> (\<Union>i\<in>set ips. \<Union>n\<in>set ns. \<Union>m\<in>set ms. {moment_pos D i n m})) B'"
proof (rule for_loop_grows [where J = "written [E, 2, D, D] (symmetric_value Benm_nT Aen)"])
  fix i S' B'
  assume i: "i \<in> set ips" and w: "written [E, 2, D, D] (symmetric_value Benm_nT Aen) S' B'"
  from i ips have ir: "0 \<le> i" "i < int E" by auto
  show "\<exists>s'. for_loop (\<lambda>n. for_loop (\<lambda>m. symmetric_entry Benm_nT Aen i n m) ms) ns B' = Inr s'
          \<and> written [E, 2, D, D] (symmetric_value Benm_nT Aen)
               (S' \<union> (\<Union>n\<in>set ns. \<Union>m\<in>set ms. {moment_pos D i n m})) s'"
    by (rule loop_n [OF sh ir ns ms w])
next
  show "written [E, 2, D, D] (symmetric_value Benm_nT Aen) S B" by (rule J)
qed

text \<open>
  C1.  In the layer method without asymmetry, with \<open>Benm_nT\<close> and \<open>Binm_nT\<close> of shape
  \<open>[nExc, 2, D, D]\<close> and \<open>Aen\<close> of shape \<open>[nExc, nprmMax + 1]\<close> where \<open>D > nprmMax\<close> (in the code
  \<open>D = nprmMax + pMax + 1\<close>), the loops end without an error and leave, for every peak, every
  degree \<open>n\<close> in \<open>1..nprmMax\<close> and every order \<open>m\<close> with \<open>|m| \<le> n\<close>,
  \<open>Binm_nT[iPeak, int(m<0), n, m] = n/(n+1) * Benm_nT[iPeak, int(m<0), n, m] * Aen[iPeak, n]\<close>,
  for arbitrary complex items of \<open>Benm_nT\<close>, \<open>Aen\<close> and the initial \<open>Binm_nT\<close>.
\<close>

theorem C1_symmetric_moments:
  assumes sh: "shape Benm_nT = [nat nExc, 2, D, D]" "shape Binm_nT = [nat nExc, 2, D, D]"
              "shape Aen = [nat nExc, nat nprmMax + 1]"
    and D: "nprmMax < int D"
  shows "\<exists>B. symmetric_moments nExc (nLin nprmMax) (mLin nprmMax) Benm_nT Aen Binm_nT = Inr B
          \<and> shape B = shape Binm_nT
          \<and> (\<forall>iPeak n m. 0 \<le> iPeak \<and> iPeak < nExc \<and> 1 \<le> n \<and> n \<le> nprmMax \<and> - n \<le> m \<and> m \<le> n
               \<longrightarrow> (\<exists>be ae. getitem Benm_nT [iPeak, sign_index m, n, m] = Inr be
                      \<and> getitem Aen [iPeak, n] = Inr ae
                      \<and> getitem B [iPeak, sign_index m, n, m]
                          = Inr (of_int n / of_int (n + 1) * be * ae)))"
proof -
  let ?E = "nat nExc" and ?K = "nat nprmMax + 1"
  let ?val = "symmetric_value Benm_nT Aen"
  have ips: "\<forall>i\<in>set [0..nExc - 1]. 0 \<le> i \<and> i < int ?E" by auto
  have ns: "\<forall>n\<in>set (nLin nprmMax). 1 \<le> n \<and> n < int D \<and> n < int ?K"
    using D by (auto dest: nLin_range)
  have ms: "\<forall>m\<in>set (mLin nprmMax). - int D \<le> m \<and> m < int D"
    using D by (auto dest: mLin_range)
  have J0: "written [?E, 2, D, D] ?val {} Binm_nT"
    using sh(2) by (simp add: written_def)
  from loop_iPeak [OF sh(1) sh(3) ips ns ms J0]
  obtain B where B: "symmetric_moments nExc (nLin nprmMax) (mLin nprmMax) Benm_nT Aen Binm_nT = Inr B"
    and w: "written [?E, 2, D, D] ?val
              ({} \<union> (\<Union>i\<in>set [0..nExc - 1]. \<Union>n\<in>set (nLin nprmMax). \<Union>m\<in>set (mLin nprmMax).
                        {moment_pos D i n m})) B"
    unfolding symmetric_moments_def by blast
  from w have shB: "shape B = [?E, 2, D, D]" by (simp add: written_def)
  have main: "\<exists>be ae. getitem Benm_nT [iPeak, sign_index m, n, m] = Inr be
                 \<and> getitem Aen [iPeak, n] = Inr ae
                 \<and> getitem B [iPeak, sign_index m, n, m] = Inr (of_int n / of_int (n + 1) * be * ae)"
    if r: "0 \<le> iPeak \<and> iPeak < nExc \<and> 1 \<le> n \<and> n \<le> nprmMax \<and> - n \<le> m \<and> m \<le> n"
    for iPeak n m
  proof -
    from r D have rg: "0 \<le> iPeak" "iPeak < int ?E" "0 \<le> n" "n < int D" "- int D \<le> m" "m < int D"
      by simp_all
    have a: "norm_index [?E, 2, D, D] [iPeak, sign_index m, n, m] = Inr (moment_pos D iPeak n m)"
      by (rule norm_index_moment [OF rg])
    have b: "norm_index [?E, ?K] [iPeak, n] = Inr [nat iPeak, nat n]"
      using r by (intro norm_index_amp) simp_all
    have "iPeak \<in> set [0..nExc - 1]" using r by simp
    moreover have "n \<in> set (nLin nprmMax)" using r by (simp add: nLin_member)
    moreover have "m \<in> set (mLin nprmMax)" using r by (intro mLin_member [of n]) simp_all
    ultimately have "moment_pos D iPeak n m
        \<in> {} \<union> (\<Union>i\<in>set [0..nExc - 1]. \<Union>n\<in>set (nLin nprmMax). \<Union>m\<in>set (mLin nprmMax).
                  {moment_pos D i n m})"
      by blast
    with w have "item B (moment_pos D iPeak n m) = ?val (moment_pos D iPeak n m)"
      unfolding written_def by blast
    also have "\<dots> = of_int n / of_int (n + 1) * item Benm_nT (moment_pos D iPeak n m)
                      * item Aen [nat iPeak, nat n]"
      using rg(3) by (simp add: symmetric_value_def moment_pos_def)
    finally have c: "item B (moment_pos D iPeak n m)
        = of_int n / of_int (n + 1) * item Benm_nT (moment_pos D iPeak n m)
            * item Aen [nat iPeak, nat n]" .
    have g1: "getitem Benm_nT [iPeak, sign_index m, n, m] = Inr (item Benm_nT (moment_pos D iPeak n m))"
      by (simp only: getitem_def sh a sum.case)
    have g2: "getitem Aen [iPeak, n] = Inr (item Aen [nat iPeak, nat n])"
      by (simp only: getitem_def sh b sum.case)
    have g3: "getitem B [iPeak, sign_index m, n, m] = Inr (item B (moment_pos D iPeak n m))"
      by (simp only: getitem_def shB a sum.case)
    show ?thesis
      unfolding g1 g2 g3 c by blast
  qed
  from B shB sh(2) main show ?thesis by auto
qed

theorem C1_symmetric_moments_witness:
  "\<exists>B. symmetric_moments 1 (nLin 1) (mLin 1)
          \<lparr>shape = [1, 2, 2, 2], item = (\<lambda>p. if p = [0, 1, 1, 1] then \<i> else 3)\<rparr>
          \<lparr>shape = [1, 2], item = (\<lambda>p. if p = [0, 1] then 2 else 5)\<rparr>
          \<lparr>shape = [1, 2, 2, 2], item = (\<lambda>p. 0)\<rparr> = Inr B
       \<and> getitem B [0, sign_index (- 1), 1, - 1] = Inr (of_int 1 / of_int (1 + 1) * \<i> * 2)"
proof -
  let ?Benm = "\<lparr>shape = [1, 2, 2, 2], item = (\<lambda>p. if p = [0, 1, 1, 1] then \<i> else 3)\<rparr>"
  let ?Aen = "\<lparr>shape = [1, 2], item = (\<lambda>p. if p = [0, 1] then 2 else (5::complex))\<rparr>"
  let ?Binm = "\<lparr>shape = [1, 2, 2, 2], item = (\<lambda>p. 0::complex)\<rparr>"
  have sh: "shape ?Benm = [nat 1, 2, 2, 2]" "shape ?Binm = [nat 1, 2, 2, 2]"
    "shape ?Aen = [nat 1, nat 1 + 1]" by simp_all
  have D: "(1::int) < int 2" by simp
  from C1_symmetric_moments [OF sh D]
  obtain B where B: "symmetric_moments 1 (nLin 1) (mLin 1) ?Benm ?Aen ?Binm = Inr B"
    and all: "\<forall>iPeak n m. 0 \<le> iPeak \<and> iPeak < 1 \<and> 1 \<le> n \<and> n \<le> 1 \<and> - n \<le> m \<and> m \<le> n
               \<longrightarrow> (\<exists>be ae. getitem ?Benm [iPeak, sign_index m, n, m] = Inr be
                      \<and> getitem ?Aen [iPeak, n] = Inr ae
                      \<and> getitem B [iPeak, sign_index m, n, m]
                          = Inr (of_int n / of_int (n + 1) * be * ae))"
    by blast
  from all [rule_format, of 0 1 "- 1"]
  obtain be ae where g: "getitem ?Benm [0, sign_index (- 1), 1, - 1] = Inr be"
    "getitem ?Aen [0, 1] = Inr ae"
    "getitem B [0, sign_index (- 1), 1, - 1] = Inr (of_int 1 / of_int (1 + 1) * be * ae)"
    by auto
  have "getitem ?Benm [0, sign_index (- 1), 1, - 1] = Inr \<i>"
    by (simp add: getitem_def axis_index_def sign_index_def)
  with g(1) have be: "be = \<i>" by simp
  have "getitem ?Aen [0, 1] = Inr 2"
    by (simp add: getitem_def axis_index_def)
  with g(2) have ae: "ae = 2" by simp
  from B g(3) be ae show ?thesis by blast
qed

subsection \<open>Reloading induced moments (ReloadMoments, lines 202-245)\<close>

text \<open>
  C3 (the code at the failing input).  The file stores the radius 1000 km and the body's
  radius is 2000 km, so the radii differ by far more than the tolerance.  The test is
  one-sided: \<open>(Rre_m - R_m) / R_m\<close> is negative here, so nothing is rescaled and no warning is
  logged; the amplitude of degree 1 stays 1 where the claim asks for \<open>(R/R')\<^sup>3 = 8\<close>.
\<close>

theorem C3_smaller_stored_radius_not_rescaled:
  "ReloadMoments 2000000 file_1000km =
     Inr (\<lparr>M_Binm_nT = f_Binm_nT file_1000km, M_BinmLin_nT = f_BinmLin_nT file_1000km,
           M_nLin = [1, 1, 1],
           M_Bi1xyz_nT = [''x'' \<mapsto> [1], ''y'' \<mapsto> [1], ''z'' \<mapsto> [1]],
           M_Aen = f_Aen file_1000km, M_Amp = [1]\<rparr>, [])"
  by (simp add: ReloadMoments_def file_1000km_def abs_column_def axis_index_def Let_def)

text \<open>
  For comparison, the same file reloaded for a body of radius 500 km: the stored radius is the
  larger one, the warning is logged and the amplitude, the moments and the linear list of
  degree 1 are multiplied by \<open>(R/R')\<^sup>3 = 1/8\<close>.
\<close>

lemma ReloadMoments_larger_stored_radius:
  "\<exists>M w. ReloadMoments 500000 file_1000km = Inr (M, w) \<and> w \<noteq> []
     \<and> getitem (M_Aen M) [0, 1] = Inr (1 / 8) \<and> M_Amp M = [1 / 8]
     \<and> getitem (M_Binm_nT M) [0, 1, 1, - 1] = Inr (1 / 8)
     \<and> getitem (M_BinmLin_nT M) [0, 2] = Inr (1 / 8)"
  by (simp add: ReloadMoments_def file_1000km_def abs_column_def axis_index_def Let_def
      np_max_def rescale_degree_def scale_at_def scale_columns_def getitem_def upto.simps
      power_int_def power3_eq_cube)

subsection \<open>Layer reduction in SetupInduction (lines 414-476)\<close>

lemma fl_lt_Some [simp]: "fl_lt (Some x) (Some y) \<longleftrightarrow> x < y"
  by (simp add: fl_lt_def)


lemma fl_ne_None [simp]: "fl_ne x None"
  by (simp add: fl_ne_def split: option.splits)



































subsection \<open>Shape coefficients (SetAsymShape and SetGravShape, lines 640-839)\<close>

lemma for_loop_grows_partial:
  assumes step: "\<And>x S s s'. x \<in> set xs \<Longrightarrow> J S s \<Longrightarrow> body x s = Inr s' \<Longrightarrow> J (S \<union> W x) s'"
    and init: "J S s"
    and run: "for_loop body xs s = Inr s'"
  shows "J (S \<union> (\<Union>x\<in>set xs. W x)) s'"
  using assms
proof (induction xs arbitrary: S s)
  case Nil
  then show ?case by simp
next
  case (Cons x xs)
  from Cons.prems(3) obtain s1 where s1: "body x s = Inr s1" "for_loop body xs s1 = Inr s'"
    by (auto split: sum.splits)
  have j1: "J (S \<union> W x) s1" using Cons.prems(1) [of x S s s1] Cons.prems(2) s1(1) by simp
  have "J ((S \<union> W x) \<union> (\<Union>x\<in>set xs. W x)) s'"
  proof (rule Cons.IH [OF _ j1 s1(2)])
    show "\<And>y S s s'. y \<in> set xs \<Longrightarrow> J S s \<Longrightarrow> body y s = Inr s' \<Longrightarrow> J (S \<union> W y) s'"
      using Cons.prems(1) by simp
  qed
  moreover have "(S \<union> W x) \<union> (\<Union>x\<in>set xs. W x) = S \<union> (\<Union>y\<in>set (x # xs). W y)" by auto
  ultimately show ?case by simp
qed

lemma for_loop_preserves:
  assumes step: "\<And>x s s'. x \<in> set xs \<Longrightarrow> I s \<Longrightarrow> body x s = Inr s' \<Longrightarrow> I s'"
    and init: "I s"
    and run: "for_loop body xs s = Inr s'"
  shows "I s'"
  using for_loop_grows_partial [where J = "\<lambda>_ s. I s" and W = "\<lambda>_. {}" and S = "{}", OF _ init run]
    step by blast

text \<open>Writing a block of degree \<open>p \<ge> 1\<close> leaves every item of degree 0 as it was.\<close>

lemma set_block_other_degree:
  assumes "set_block A iLayer p v = Inr A'" "idx ! 2 \<noteq> p"
  shows "item A' idx = item A idx"
  using assms by (auto simp: set_block_def split: list.splits if_splits)

lemma set_block_shape:
  assumes "set_block A iLayer p v = Inr A'"
  shows "shape A' = shape A"
  using assms by (auto simp: set_block_def split: list.splits if_splits)

lemma norm_index_Inr:
  "norm_index sh idx = Inr p \<Longrightarrow>
     length p = length idx \<and> (\<forall>k<length idx. axis_index (sh ! k) (idx ! k) = Inr (p ! k))"
proof (induction sh idx arbitrary: p rule: norm_index.induct)
  case 1
  then show ?case by simp
next
  case (2 d ds i "is")
  from "2.prems" obtain j js where j: "axis_index d i = Inr j" "norm_index ds is = Inr js"
    "p = j # js" by (auto split: sum.splits)
  from "2.IH" [OF j(1,2)]
  have ih: "length js = length is" "\<forall>k<length is. axis_index (ds ! k) (is ! k) = Inr (js ! k)"
    by simp_all
  have "\<forall>k<length (i # is). axis_index ((d # ds) ! k) ((i # is) ! k) = Inr (p ! k)"
  proof (intro allI impI)
    fix k assume "k < length (i # is)"
    then show "axis_index ((d # ds) ! k) ((i # is) ! k) = Inr (p ! k)"
      using j(1,3) ih(2) by (cases k) auto
  qed
  with ih(1) j(3) show ?case by simp
qed simp_all

lemma axis_index_nat: "axis_index d (int l) = Inr j \<Longrightarrow> j = l"
  by (auto simp: axis_index_def split: if_splits)

lemma axis_index_zero: "axis_index d 0 = Inr j \<Longrightarrow> j = 0"
  by (auto simp: axis_index_def split: if_splits)

lemma norm_index_degree0:
  assumes "norm_index sh [int l, 0, 0, 0] = Inr p"
  shows "p = [l, 0, 0, 0]"
proof -
  from norm_index_Inr [OF assms]
  have len: "length p = 4"
    and ax: "\<forall>k<4. axis_index (sh ! k) ([int l, 0, 0, 0] ! k) = Inr (p ! k)" by simp_all
  have "axis_index (sh ! 0) (int l) = Inr (p ! 0)" using ax [rule_format, of 0] by simp
  moreover have "axis_index (sh ! 1) 0 = Inr (p ! 1)" using ax [rule_format, of 1] by simp
  moreover have "axis_index (sh ! 2) 0 = Inr (p ! 2)" using ax [rule_format, of 2] by simp
  moreover have "axis_index (sh ! 3) 0 = Inr (p ! 3)" using ax [rule_format, of 3] by simp
  ultimately have "p ! 0 = l" "p ! 1 = 0" "p ! 2 = 0" "p ! 3 = 0"
    by (auto dest: axis_index_nat axis_index_zero)
  with len show ?thesis
    by (intro nth_equalityI) (auto simp: nth_Cons' less_Suc_eq numeral_eq_Suc)
qed

lemma setitem_degree0:
  assumes "setitem A [int l, 0, 0, 0] x = Inr A'"
  shows "item A' = (item A)([l, 0, 0, 0] := x)" "shape A' = shape A"
  using assms by (auto simp: setitem_def split: sum.splits dest: norm_index_degree0)

subsubsection \<open>The gravity array\<close>

lemma SetGravShape_degree0:
  assumes run: "SetGravShape chipq nf B rSig M = Inr (B', M')"
    and z: "\<forall>idx. idx ! 2 \<noteq> 2 \<longrightarrow> item (A_gravShape_m M) idx = 0"
  shows "\<forall>idx. idx ! 2 \<noteq> 2 \<longrightarrow> item (A_gravShape_m M') idx = 0"
proof -
  from run obtain body n G where
    loop: "for_loop (\<lambda>iLayer G. set_block G iLayer 2 (body iLayer)) [0..<n] (A_gravShape_m M) = Inr G"
    and G: "A_gravShape_m M' = G"
    unfolding SetGravShape_def Let_def
    by (auto split: option.splits sum.splits)
  have "\<forall>idx. idx ! 2 \<noteq> 2 \<longrightarrow> item G idx = 0"
  proof (rule for_loop_preserves
      [where I = "\<lambda>G. \<forall>idx. idx ! 2 \<noteq> 2 \<longrightarrow> item G idx = 0", OF _ z loop])
    fix x s s'
    assume "\<forall>idx. idx ! 2 \<noteq> 2 \<longrightarrow> item s idx = 0" "set_block s x 2 (body x) = Inr s'"
    then show "\<forall>idx. idx ! 2 \<noteq> 2 \<longrightarrow> item s' idx = 0"
      by (auto dest: set_block_other_degree)
  qed
  with G show ?thesis by simp
qed

lemma SetGravShape_frame:
  assumes "SetGravShape chipq nf B rSig M = Inr (B', M')"
  shows "A_asymShape_m M' = A_asymShape_m M \<and> A_pMax M' = A_pMax M"
  using assms unfolding SetGravShape_def Let_def
  by (auto split: option.splits sum.splits)

subsubsection \<open>The asymmetric array in concentric mode\<close>

lemma concentric_layer_degree0:
  assumes run: "concentric_layer rSig rAsym p chi l A = Inr A'" and p: "1 \<le> p"
    and J: "degree0_set rSig S A"
  shows "degree0_set rSig (S \<union> {l}) A'"
proof -
  from run obtain A1 where A1: "setitem A [int l, 0, 0, 0] (of_real (rSig ! l)) = Inr A1"
    and blk: "set_block A1 l p (\<lambda>s q. chi s q * of_real (rSig ! l / rAsym)) = Inr A'"
    by (auto simp: concentric_layer_def split: sum.splits)
  have keep: "item A' [k, 0, 0, 0] = item A1 [k, 0, 0, 0]" for k
    using set_block_other_degree [OF blk, of "[k, 0, 0, 0]"] p by simp
  have "item A1 = (item A)([l, 0, 0, 0] := of_real (rSig ! l))"
    by (rule setitem_degree0(1) [OF A1])
  with keep J show ?thesis by (auto simp: degree0_set_def)
qed

lemma concentric_loops_degree0:
  assumes run: "for_loop (\<lambda>p. for_loop (concentric_layer rSig rAsym (nat p) (chi p)) [0..<n])
                  [1..pMax] Z = Inr A"
  shows "degree0_set rSig (\<Union>p\<in>set [1..pMax]. {0..<n}) A"
proof -
  have "degree0_set rSig ({} \<union> (\<Union>p\<in>set [1..pMax]. {0..<n})) A"
  proof (rule for_loop_grows_partial [where J = "degree0_set rSig", OF _ _ run])
    show "degree0_set rSig {} Z" by (simp add: degree0_set_def)
  next
    fix p S A0 A1
    assume p: "p \<in> set [1..pMax]" and J: "degree0_set rSig S A0"
      and inner: "for_loop (concentric_layer rSig rAsym (nat p) (chi p)) [0..<n] A0 = Inr A1"
    have p1: "1 \<le> nat p" using p by (simp add: Suc_le_eq)
    have "degree0_set rSig (S \<union> (\<Union>l\<in>set [0..<n]. {l})) A1"
    proof (rule for_loop_grows_partial [where J = "degree0_set rSig", OF _ J inner])
      fix l S' B0 B1
      assume "degree0_set rSig S' B0" "concentric_layer rSig rAsym (nat p) (chi p) l B0 = Inr B1"
      then show "degree0_set rSig (S' \<union> {l}) B1"
        using concentric_layer_degree0 [OF _ p1] by blast
    qed
    moreover have "(\<Union>l\<in>set [0..<n]. {l}) = {0..<n}" by auto
    ultimately show "degree0_set rSig (S \<union> {0..<n}) A1" by simp
  qed
  then show ?thesis by simp
qed

lemma concentric_shape_degree0:
  assumes run: "concentric_shape chipq R_m rSig f M = Inr M'"
    and p: "A_pMax M' = Some pMax" "1 \<le> pMax"
  shows "\<forall>l<length rSig. item (A_asymShape_m M') [l, 0, 0, 0] = of_real (rSig ! l)"
proof -
  from run p(1) obtain rAsym Z where
    loop: "for_loop (\<lambda>p. for_loop (concentric_layer rSig rAsym (nat p) (degree_chipq chipq f p))
                            [0..<length rSig]) [1..pMax] Z = Inr (A_asymShape_m M')"
    unfolding concentric_shape_def Let_def
    by (auto split: sum.splits list.splits option.splits if_splits)
  from concentric_loops_degree0 [OF loop]
  have "degree0_set rSig (\<Union>p\<in>set [1..pMax]. {0..<length rSig}) (A_asymShape_m M')" .
  moreover have "(\<Union>p\<in>set [1..pMax]. {0..<length rSig}) = {0..<length rSig}"
    using p(2) by auto
  ultimately show ?thesis by (simp add: degree0_set_def)
qed

subsubsection \<open>The asymmetric array in per-boundary mode\<close>

lemma boundary_degree_degree0:
  assumes run: "boundary_degree chipq R_m rSig f rAsym iLayer p M = Inr M'" and p: "1 \<le> p"
  shows "item (A_asymShape_m M') [l, 0, 0, 0] = item (A_asymShape_m M) [l, 0, 0, 0]"
proof -
  from run obtain v A1 where blk: "set_block (A_asymShape_m M) iLayer (nat p) v = Inr A1"
    and A1: "A_asymShape_m M' = A1"
    by (auto simp: boundary_degree_def Let_def split: sum.splits)
  have "[l, 0, 0, 0] ! 2 \<noteq> nat p" using p by simp
  from set_block_other_degree [OF blk this] A1 show ?thesis by simp
qed

lemma boundary_file_degree0:
  assumes run: "boundary_file chipq R_m rSig pMaxAll f M = Inr M'"
    and J: "degree0_exact rSig S M"
  shows "degree0_exact rSig (S \<union> nearest_boundary R_m rSig f) M'"
proof -
  from run obtain c0 cs iLayer A0 m where
    c0: "sf_Cpq_km f = c0 # cs"
    and am: "argmin_abs (map (\<lambda>r. r - (R_m - c0 * 1000)) rSig) = Inr iLayer"
    and A0: "setitem (A_asymShape_m M) [int iLayer, 0, 0, 0] (of_real (rSig ! iLayer)) = Inr A0"
    and loop: "for_loop (boundary_degree chipq R_m rSig f (R_m - c0 * 1000) iLayer) [1..m]
                 (M\<lparr>A_asymShape_m := A0\<rparr>) = Inr M'"
    unfolding boundary_file_def Let_def
    by (auto split: sum.splits list.splits)
  have near: "nearest_boundary R_m rSig f = {iLayer}"
    by (simp add: nearest_boundary_def c0 am)
  have i0: "item A0 = (item (A_asymShape_m M))([iLayer, 0, 0, 0] := of_real (rSig ! iLayer))"
    by (rule setitem_degree0(1) [OF A0])
  have start: "degree0_exact rSig (S \<union> {iLayer}) (M\<lparr>A_asymShape_m := A0\<rparr>)"
    using J by (auto simp: degree0_exact_def i0)
  have "degree0_exact rSig (S \<union> {iLayer}) M'"
  proof (rule for_loop_preserves [where I = "degree0_exact rSig (S \<union> {iLayer})", OF _ start loop])
    fix p N N'
    assume "p \<in> set [1..m]" "degree0_exact rSig (S \<union> {iLayer}) N"
      "boundary_degree chipq R_m rSig f (R_m - c0 * 1000) iLayer p N = Inr N'"
    then show "degree0_exact rSig (S \<union> {iLayer}) N'"
      using boundary_degree_degree0 [of chipq R_m rSig f "R_m - c0 * 1000" iLayer p N N']
      by (simp add: degree0_exact_def)
  qed
  with near show ?thesis by simp
qed

lemma per_boundary_shape_degree0:
  assumes run: "per_boundary_shape chipq R_m rSig files M = Inr M'"
  shows "degree0_exact rSig (\<Union>f\<in>set files. nearest_boundary R_m rSig f) M'"
proof -
  from run obtain pMax Z where
    Z: "zeros4 (length rSig) pMax = Inr Z"
    and loop: "for_loop (boundary_file chipq R_m rSig pMax) files
                 (M\<lparr>A_pMax := Some pMax, A_asymShape_m := Z\<rparr>) = Inr M'"
    unfolding per_boundary_shape_def Let_def
    by (auto split: sum.splits)
  from Z have "item Z = (\<lambda>_. 0)" by (auto simp: zeros4_def split: if_splits)
  then have start: "degree0_exact rSig {} (M\<lparr>A_pMax := Some pMax, A_asymShape_m := Z\<rparr>)"
    by (simp add: degree0_exact_def)
  have "degree0_exact rSig ({} \<union> (\<Union>f\<in>set files. nearest_boundary R_m rSig f)) M'"
  proof (rule for_loop_grows_partial [where J = "degree0_exact rSig", OF _ start loop])
    fix f S N N'
    assume "degree0_exact rSig S N" "boundary_file chipq R_m rSig pMax f N = Inr N'"
    then show "degree0_exact rSig (S \<union> nearest_boundary R_m rSig f) N'"
      by (rule boundary_file_degree0 [rotated])
  qed
  then show ?thesis by simp
qed

subsubsection \<open>SetAsymShape as a whole\<close>

lemma shape_from_files_cases:
  assumes "shape_from_files chipq nib found backup CONC fName R_m rSig M = Inr (M1, SKIP)"
  shows "(CONC \<and> map_of (shape_files nib found backup) fName = None \<and> SKIP)
       \<or> (CONC \<and> \<not> SKIP
            \<and> (\<exists>f. map_of (shape_files nib found backup) fName = Some f
                   \<and> concentric_shape chipq R_m rSig f M = Inr M1))
       \<or> (\<not> CONC \<and> SKIP = (shape_files nib found backup = [])
            \<and> per_boundary_shape chipq R_m rSig (map snd (shape_files nib found backup)) M = Inr M1)"
proof (cases CONC)
  case True
  show ?thesis
  proof (cases "map_of (shape_files nib found backup) fName")
    case None
    with True assms show ?thesis by (simp add: shape_from_files_def Let_def)
  next
    case (Some f)
    then have "shape_files nib found backup \<noteq> []" by auto
    with True Some assms show ?thesis
      by (auto simp: shape_from_files_def Let_def split: sum.splits)
  qed
next
  case False
  with assms show ?thesis
    by (auto simp: shape_from_files_def Let_def split: sum.splits)
qed

lemma SetAsymShape_parts:
  assumes run: "SetAsymShape chipq nf nib found backup CONC fName B rSig M = Inr (B', M')"
  shows "\<exists>M1 SKIP. shape_from_files chipq nib found backup CONC fName (B_R_m B) rSig M
                      = Inr (M1, SKIP)
           \<and> (SKIP \<longrightarrow> item (A_asymShape_m M') = (\<lambda>_. 0))
           \<and> (\<not> SKIP \<longrightarrow> A_asymShape_m M' = A_asymShape_m M1 \<and> A_pMax M' = A_pMax M1)
           \<and> (\<forall>idx. idx ! 2 \<noteq> 2 \<longrightarrow> item (A_gravShape_m M') idx = 0)"
proof -
  from run obtain M1 SKIP M2 pMax where
    sff: "shape_from_files chipq nib found backup CONC fName (B_R_m B) rSig M = Inr (M1, SKIP)"
    and M2: "skip_or_unique rSig M1 SKIP = Inr M2"
    and pM: "A_pMax M2 = Some pMax"
    and fin: "(if pMax \<ge> 2 then SetGravShape chipq nf B rSig (init_gravShape M2 pMax)
               else Inr (B, init_gravShape M2 pMax)) = Inr (B', M')"
    unfolding SetAsymShape_def
    by (auto split: sum.splits option.splits prod.splits)
  let ?M4 = "init_gravShape M2 pMax"
  have a4: "A_asymShape_m ?M4 = A_asymShape_m M2" "A_pMax ?M4 = A_pMax M2"
    by (simp_all add: init_gravShape_def Let_def)
  have g4: "\<forall>idx. idx ! 2 \<noteq> 2 \<longrightarrow> item (A_gravShape_m ?M4) idx = 0"
    by (simp add: init_gravShape_def Let_def)
  have last: "A_asymShape_m M' = A_asymShape_m M2 \<and> A_pMax M' = A_pMax M2
              \<and> (\<forall>idx. idx ! 2 \<noteq> 2 \<longrightarrow> item (A_gravShape_m M') idx = 0)"
  proof (cases "pMax \<ge> 2")
    case True
    with fin have g: "SetGravShape chipq nf B rSig ?M4 = Inr (B', M')" by simp
    from SetGravShape_frame [OF g] SetGravShape_degree0 [OF g g4] a4 show ?thesis by simp
  next
    case False
    with fin have "M' = ?M4" by simp
    with a4 g4 show ?thesis by simp
  qed
  have skip: "item (A_asymShape_m M2) = (\<lambda>_. 0)" if SKIP
    using M2 that by (auto simp: skip_or_unique_def zeros4_def split: sum.splits if_splits)
  have noskip: "A_asymShape_m M2 = A_asymShape_m M1 \<and> A_pMax M2 = A_pMax M1" if "\<not> SKIP"
    using M2 that by (auto simp: skip_or_unique_def)
  from sff last skip noskip show ?thesis by (intro exI [of _ M1] exI [of _ SKIP]) simp
qed

lemma zeros4_shape:
  "zeros4 n p = Inr Z \<Longrightarrow> shape Z = [n, 2, nat (p + 1), nat (p + 1)]"
  by (auto simp: zeros4_def split: if_splits)

lemma concentric_layer_shape:
  assumes "concentric_layer rSig rAsym p chi l A = Inr A'"
  shows "shape A' = shape A"
proof -
  from assms obtain A1 v where "setitem A [int l, 0, 0, 0] (of_real (rSig ! l)) = Inr A1"
    "set_block A1 l p v = Inr A'"
    by (auto simp: concentric_layer_def split: sum.splits)
  then show ?thesis using setitem_degree0(2) set_block_shape by metis
qed

lemma concentric_shape_shaped:
  assumes run: "concentric_shape chipq R_m rSig f M = Inr M'"
  shows "shaped (length rSig) M'"
proof -
  from run obtain rAsym Z pMax where
    Z: "zeros4 (length rSig) pMax = Inr Z" and pM: "A_pMax M' = Some pMax"
    and loop: "for_loop (\<lambda>p. for_loop (concentric_layer rSig rAsym (nat p) (degree_chipq chipq f p))
                            [0..<length rSig]) [1..pMax] Z = Inr (A_asymShape_m M')"
    unfolding concentric_shape_def Let_def
    by (auto split: sum.splits list.splits option.splits if_splits)
  have "shape (A_asymShape_m M') = shape Z"
  proof (rule for_loop_preserves [where I = "\<lambda>A. shape A = shape Z", OF _ _ loop])
    fix p A0 A1
    assume s: "shape A0 = shape Z"
      and inner: "for_loop (concentric_layer rSig rAsym (nat p) (degree_chipq chipq f p))
                    [0..<length rSig] A0 = Inr A1"
    show "shape A1 = shape Z"
    proof (rule for_loop_preserves [where I = "\<lambda>A. shape A = shape Z", OF _ s inner])
      fix l B0 B1
      assume "shape B0 = shape Z"
        "concentric_layer rSig rAsym (nat p) (degree_chipq chipq f p) l B0 = Inr B1"
      then show "shape B1 = shape Z" using concentric_layer_shape by metis
    qed
  qed simp
  with zeros4_shape [OF Z] pM show ?thesis by (simp add: shaped_def)
qed

lemma boundary_degree_shaped:
  assumes run: "boundary_degree chipq R_m rSig f rAsym iLayer p M = Inr M'" and s: "shaped n M"
  shows "shaped n M'"
proof -
  from run obtain v A1 where blk: "set_block (A_asymShape_m M) iLayer (nat p) v = Inr A1"
    and A1: "A_asymShape_m M' = A1" and pM: "A_pMax M' = A_pMax M"
    by (auto simp: boundary_degree_def Let_def split: sum.splits)
  from set_block_shape [OF blk] A1 pM s show ?thesis by (simp add: shaped_def)
qed

lemma boundary_file_shaped:
  assumes run: "boundary_file chipq R_m rSig pMaxAll f M = Inr M'" and s: "shaped n M"
  shows "shaped n M'"
proof -
  from run obtain rAsym iLayer A0 m where
    A0: "setitem (A_asymShape_m M) [int iLayer, 0, 0, 0] (of_real (rSig ! iLayer)) = Inr A0"
    and loop: "for_loop (boundary_degree chipq R_m rSig f rAsym iLayer) [1..m]
                 (M\<lparr>A_asymShape_m := A0\<rparr>) = Inr M'"
    unfolding boundary_file_def Let_def
    by (auto split: sum.splits list.splits)
  have start: "shaped n (M\<lparr>A_asymShape_m := A0\<rparr>)"
    using s setitem_degree0(2) [OF A0] by (simp add: shaped_def)
  show ?thesis
  proof (rule for_loop_preserves [where I = "shaped n", OF _ start loop])
    fix p N N'
    assume "shaped n N" "boundary_degree chipq R_m rSig f rAsym iLayer p N = Inr N'"
    then show "shaped n N'" by (rule boundary_degree_shaped [rotated])
  qed
qed

lemma per_boundary_shape_shaped:
  assumes run: "per_boundary_shape chipq R_m rSig files M = Inr M'"
  shows "shaped (length rSig) M'"
proof -
  from run obtain pMax Z where
    Z: "zeros4 (length rSig) pMax = Inr Z"
    and loop: "for_loop (boundary_file chipq R_m rSig pMax) files
                 (M\<lparr>A_pMax := Some pMax, A_asymShape_m := Z\<rparr>) = Inr M'"
    unfolding per_boundary_shape_def Let_def
    by (auto split: sum.splits)
  have start: "shaped (length rSig) (M\<lparr>A_pMax := Some pMax, A_asymShape_m := Z\<rparr>)"
    using zeros4_shape [OF Z] by (simp add: shaped_def)
  show ?thesis
  proof (rule for_loop_preserves [where I = "shaped (length rSig)", OF _ start loop])
    fix f N N'
    assume "shaped (length rSig) N" "boundary_file chipq R_m rSig pMax f N = Inr N'"
    then show "shaped (length rSig) N'" by (rule boundary_file_shaped [rotated])
  qed
qed

lemma SetGravShape_shape:
  assumes run: "SetGravShape chipq nf B rSig M = Inr (B', M')"
  shows "shape (A_gravShape_m M') = shape (A_gravShape_m M)"
proof -
  from run obtain body n G where
    loop: "for_loop (\<lambda>iLayer G. set_block G iLayer 2 (body iLayer)) [0..<n] (A_gravShape_m M) = Inr G"
    and G: "A_gravShape_m M' = G"
    unfolding SetGravShape_def Let_def
    by (auto split: option.splits sum.splits)
  have "shape G = shape (A_gravShape_m M)"
  proof (rule for_loop_preserves
      [where I = "\<lambda>G. shape G = shape (A_gravShape_m M)", OF _ _ loop])
    fix x s s'
    assume "shape s = shape (A_gravShape_m M)" "set_block s x 2 (body x) = Inr s'"
    then show "shape s' = shape (A_gravShape_m M)" using set_block_shape by metis
  qed simp
  with G show ?thesis by simp
qed

lemma SetAsymShape_shaped:
  assumes run: "SetAsymShape chipq nf nib found backup CONC fName B rSig M = Inr (B', M')"
  shows "shaped (length rSig) M' \<and> shape (A_gravShape_m M') = shape (A_asymShape_m M')"
proof -
  from run obtain M1 SKIP M2 pMax where
    sff: "shape_from_files chipq nib found backup CONC fName (B_R_m B) rSig M = Inr (M1, SKIP)"
    and M2: "skip_or_unique rSig M1 SKIP = Inr M2"
    and pM: "A_pMax M2 = Some pMax"
    and fin: "(if pMax \<ge> 2 then SetGravShape chipq nf B rSig (init_gravShape M2 pMax)
               else Inr (B, init_gravShape M2 pMax)) = Inr (B', M')"
    unfolding SetAsymShape_def
    by (auto split: sum.splits option.splits prod.splits)
  have s1: "shaped (length rSig) M1" if "\<not> SKIP"
    using shape_from_files_cases [OF sff] that
    by (auto dest: concentric_shape_shaped per_boundary_shape_shaped)
  have s2: "shaped (length rSig) M2"
  proof (cases SKIP)
    case True
    with M2 show ?thesis
      by (auto simp: skip_or_unique_def shaped_def zeros4_def split: sum.splits if_splits)
  next
    case False
    with M2 s1 show ?thesis by (auto simp: skip_or_unique_def shaped_def)
  qed
  let ?M4 = "init_gravShape M2 pMax"
  have s4: "shaped (length rSig) ?M4" "shape (A_gravShape_m ?M4) = shape (A_asymShape_m ?M4)"
    using s2 by (simp_all add: init_gravShape_def Let_def shaped_def)
  show ?thesis
  proof (cases "pMax \<ge> 2")
    case True
    with fin have g: "SetGravShape chipq nf B rSig ?M4 = Inr (B', M')" by simp
    from SetGravShape_frame [OF g] SetGravShape_shape [OF g] s4 show ?thesis
      by (simp add: shaped_def)
  next
    case False
    with fin have "M' = ?M4" by simp
    with s4 show ?thesis by simp
  qed
qed

text \<open>
  C9 (as amended).  After \<open>SetAsymShape\<close>, the coefficient of degree 0 and order 0 (the item at
  \<open>[layer, 0, 0, 0]\<close>) of the gravity array is 0 at every boundary.  In the asymmetric array it
  equals \<open>rSigChange_m[layer]\<close> at every boundary in concentric mode when the shape file is found
  and the degree cap ends at 1 or more; in per-boundary mode it equals \<open>rSigChange_m[layer]\<close> at
  exactly the boundaries nearest to the reference radius of some shape file and is 0 at the
  others; and it is 0 at every boundary when no shape file is used.  Both arrays have the shape
  \<open>[nBds, 2, pMax + 1, pMax + 1]\<close> for the degree cap \<open>pMax\<close> the function ends with.
\<close>

theorem C9_degree0_coefficient:
  assumes run: "SetAsymShape chipq nf nib found backup CONC fName B rSig M = Inr (B', M')"
  shows "(\<forall>l. item (A_gravShape_m M') [l, 0, 0, 0] = 0)
       \<and> (CONC \<and> map_of (shape_files nib found backup) fName \<noteq> None
            \<and> (\<exists>p\<ge>1. A_pMax M' = Some p)
          \<longrightarrow> (\<forall>l<length rSig. item (A_asymShape_m M') [l, 0, 0, 0] = of_real (rSig ! l)))
       \<and> (\<not> CONC \<and> shape_files nib found backup \<noteq> []
          \<longrightarrow> (\<forall>l. item (A_asymShape_m M') [l, 0, 0, 0]
                     = (if l \<in> (\<Union>f\<in>set (map snd (shape_files nib found backup)).
                                   nearest_boundary (B_R_m B) rSig f)
                        then of_real (rSig ! l) else 0)))
       \<and> (shape_files nib found backup = []
            \<or> (CONC \<and> map_of (shape_files nib found backup) fName = None)
          \<longrightarrow> (\<forall>l. item (A_asymShape_m M') [l, 0, 0, 0] = 0))
       \<and> (\<exists>p. A_pMax M' = Some p
              \<and> shape (A_asymShape_m M') = [length rSig, 2, nat (p + 1), nat (p + 1)]
              \<and> shape (A_gravShape_m M') = shape (A_asymShape_m M'))"
proof -
  let ?files = "shape_files nib found backup"
  have S: "\<exists>p. A_pMax M' = Some p
              \<and> shape (A_asymShape_m M') = [length rSig, 2, nat (p + 1), nat (p + 1)]
              \<and> shape (A_gravShape_m M') = shape (A_asymShape_m M')"
    using SetAsymShape_shaped [OF run] by (auto simp: shaped_def)
  from SetAsymShape_parts [OF run] obtain M1 SKIP where
    sff: "shape_from_files chipq nib found backup CONC fName (B_R_m B) rSig M = Inr (M1, SKIP)"
    and sk: "SKIP \<longrightarrow> item (A_asymShape_m M') = (\<lambda>_. 0)"
    and ns: "\<not> SKIP \<longrightarrow> A_asymShape_m M' = A_asymShape_m M1 \<and> A_pMax M' = A_pMax M1"
    and gr: "\<forall>idx. idx ! 2 \<noteq> 2 \<longrightarrow> item (A_gravShape_m M') idx = 0"
    by blast
  have G: "\<forall>l. item (A_gravShape_m M') [l, 0, 0, 0] = 0"
    using gr by simp
  have "(CONC \<and> map_of ?files fName = None \<and> SKIP)
       \<or> (CONC \<and> \<not> SKIP
            \<and> (\<exists>f. map_of ?files fName = Some f
                   \<and> concentric_shape chipq (B_R_m B) rSig f M = Inr M1))
       \<or> (\<not> CONC \<and> SKIP = (?files = [])
            \<and> per_boundary_shape chipq (B_R_m B) rSig (map snd ?files) M = Inr M1)"
    by (rule shape_from_files_cases [OF sff])
  then consider (none) "CONC" "map_of ?files fName = None" "SKIP"
    | (conc) f where "CONC" "\<not> SKIP" "map_of ?files fName = Some f"
        "concentric_shape chipq (B_R_m B) rSig f M = Inr M1"
    | (bnd) "\<not> CONC" "SKIP = (?files = [])"
        "per_boundary_shape chipq (B_R_m B) rSig (map snd ?files) M = Inr M1"
    by (elim disjE conjE exE) blast+
  then have A: "(CONC \<and> map_of ?files fName \<noteq> None \<and> (\<exists>p\<ge>1. A_pMax M' = Some p)
          \<longrightarrow> (\<forall>l<length rSig. item (A_asymShape_m M') [l, 0, 0, 0] = of_real (rSig ! l)))
       \<and> (\<not> CONC \<and> ?files \<noteq> []
          \<longrightarrow> (\<forall>l. item (A_asymShape_m M') [l, 0, 0, 0]
                     = (if l \<in> (\<Union>f\<in>set (map snd ?files). nearest_boundary (B_R_m B) rSig f)
                        then of_real (rSig ! l) else 0)))
       \<and> (?files = [] \<or> (CONC \<and> map_of ?files fName = None)
          \<longrightarrow> (\<forall>l. item (A_asymShape_m M') [l, 0, 0, 0] = 0))"
  proof cases
    case none
    with sk show ?thesis by simp
  next
    case (conc f)
    from conc(3) have ne: "?files \<noteq> []" by auto
    have "\<forall>l<length rSig. item (A_asymShape_m M') [l, 0, 0, 0] = of_real (rSig ! l)"
      if "\<exists>p\<ge>1. A_pMax M' = Some p"
    proof -
      from that obtain p where p: "1 \<le> p" "A_pMax M' = Some p" by blast
      with ns conc(2) have "A_pMax M1 = Some p" by simp
      from concentric_shape_degree0 [OF conc(4) this p(1)] ns conc(2) show ?thesis by simp
    qed
    with conc(1,3) ne show ?thesis by simp
  next
    case bnd
    show ?thesis
    proof (cases "?files = []")
      case True
      with bnd sk show ?thesis by simp
    next
      case False
      with bnd ns have e: "A_asymShape_m M' = A_asymShape_m M1" by simp
      from per_boundary_shape_degree0 [OF bnd(3)] e bnd(1) False
      show ?thesis by (simp add: degree0_exact_def)
    qed
  qed
  from G A S show ?thesis by blast
qed

lemma example_shapes_run:
  "example_shapes =
     Inr (example_bulk,
          \<lparr>A_pMax = Some 0,
           A_asymShape_m = \<lparr>shape = [2, 2, 1, 1], item = (\<lambda>_. 0)([1, 0, 0, 0] := 100000)\<rparr>,
           A_gravShape_m = \<lparr>shape = [2, 2, 1, 1], item = (\<lambda>_. 0)\<rparr>,
           A_zMeanAsym_km = [], A_iAsymBds = [], A_pLin = Some [], A_qLin = Some []\<rparr>)"
  by (simp add: example_shapes_def SetAsymShape_def shape_from_files_def shape_files_def
      per_boundary_shape_def boundary_file_def max_nonzero_degree_def np_max_def
      check_first_row_def argmin_abs_def zeros4_def setitem_def axis_index_def
      skip_or_unique_def init_gravShape_def depth_only_file_def example_magnetic_def
      example_bulk_def example_rSigChange_m_def nLin_def mLin_def Let_def upt_rec)

theorem C9_degree0_coefficient_witness:
  "example_shapes =
     Inr (example_bulk,
          \<lparr>A_pMax = Some 0,
           A_asymShape_m = \<lparr>shape = [2, 2, 1, 1], item = (\<lambda>_. 0)([1, 0, 0, 0] := 100000)\<rparr>,
           A_gravShape_m = \<lparr>shape = [2, 2, 1, 1], item = (\<lambda>_. 0)\<rparr>,
           A_zMeanAsym_km = [], A_iAsymBds = [], A_pLin = Some [], A_qLin = Some []\<rparr>)
   \<and> (\<forall>l. item \<lparr>shape = [2, 2, 1, 1], item = (\<lambda>_. 0 :: complex)\<rparr> [l, 0, 0, 0] = 0)
   \<and> (\<forall>l. item \<lparr>shape = [2, 2, 1, 1], item = (\<lambda>_. 0)([1, 0, 0, 0] := 100000 :: complex)\<rparr>
              [l, 0, 0, 0]
            = (if l = 1 then of_real (example_rSigChange_m ! l) else 0))"
proof -
  let ?M = "\<lparr>A_pMax = Some 0,
           A_asymShape_m = \<lparr>shape = [2, 2, 1, 1], item = (\<lambda>_. 0)([1, 0, 0, 0] := 100000)\<rparr>,
           A_gravShape_m = \<lparr>shape = [2, 2, 1, 1], item = (\<lambda>_. 0)\<rparr>,
           A_zMeanAsym_km = [], A_iAsymBds = [], A_pLin = Some [], A_qLin = Some []\<rparr>"
  have run: "SetAsymShape (\<lambda>p C S s q. 0) (\<lambda>p q. 1) True
               [(''EuropaShape_4piNormDepth.txt'', depth_only_file)] []
               False ''EuropaShape_4piNormDepth.txt'' example_bulk example_rSigChange_m
               example_magnetic
             = Inr (example_bulk, ?M)"
    using example_shapes_run by (simp only: example_shapes_def)
  have near: "nearest_boundary (B_R_m example_bulk) example_rSigChange_m depth_only_file = {1}"
    by (simp add: nearest_boundary_def depth_only_file_def example_bulk_def
        example_rSigChange_m_def argmin_abs_def upt_rec)
  from C9_degree0_coefficient [OF run]
  have "\<forall>l. item (A_asymShape_m ?M) [l, 0, 0, 0]
            = (if l \<in> (\<Union>f\<in>set (map snd (shape_files True
                            [(''EuropaShape_4piNormDepth.txt'', depth_only_file)] [])).
                          nearest_boundary (B_R_m example_bulk) example_rSigChange_m f)
               then of_real (example_rSigChange_m ! l) else 0)"
    by (simp add: shape_files_def)
  then have "\<forall>l. item (A_asymShape_m ?M) [l, 0, 0, 0]
                 = (if l = 1 then of_real (example_rSigChange_m ! l) else 0)"
    by (simp add: shape_files_def near)
  then show ?thesis using example_shapes_run by simp
qed

text \<open>
  C9 as stated fails on this example: the boundary at 50 km (layer 0) is not the one nearest
  to the file's reference radius of 90 km, so the degree-0 coefficient of the asymmetric array
  stays 0 there; and the gravity array holds 0 at degree 0 at the boundary at 100 km (layer 1),
  as at every boundary.
\<close>

theorem C9_counterexample:
  "(case example_shapes of
      Inl e \<Rightarrow> False
    | Inr (B', M') \<Rightarrow>
        getitem (A_asymShape_m M') [0, 0, 0, 0] = Inr 0
        \<and> getitem (A_gravShape_m M') [1, 0, 0, 0] = Inr 0)
   \<and> example_rSigChange_m ! 0 = 50000 \<and> example_rSigChange_m ! 1 = 100000"
  by (simp add: example_shapes_run getitem_def axis_index_def example_rSigChange_m_def)

subsection \<open>Asymmetry in SetupInduction (lines 478-495, 510-512)\<close>














end
